theory Spec2Isabelle
  imports Complex_Main "HOL-Library.Char_ord" "HOL-Library.List_Lexorder" "HOL-Library.Log_Nat"
    "HOL-Library.Multiset"
begin

section \<open>Values decoded from the activity log\<close>

text \<open>
  One log line is decoded by \<^verbatim>\<open>json.loads\<close> into a Python value: \<^verbatim>\<open>None\<close>, a bool, an
  int, a float, a string, a list or a dict with string keys. A dict is kept as the list of
  its items in insertion order (its keys are distinct); lookups take the first match.
  A float is kept as the rational that is its exact value; the values \<^verbatim>\<open>NaN\<close> and
  \<^verbatim>\<open>Infinity\<close>, which \<^verbatim>\<open>json.loads\<close> also accepts, are left out.
\<close>

datatype json =
    JNull
  | JBool bool
  | JInt int
  | JFloat rat
  | JString string
  | JArray "json list"
  | JObject "(string \<times> json) list"

text \<open>The exceptions that can leave the analysis. \<^verbatim>\<open>ValueError\<close> itself is caught wherever
  the source can raise it, so it never appears as a result.\<close>

datatype py_error = TypeError | AttributeError | KeyError | OverflowError | UnicodeDecodeError

text \<open>The numeric value of a bool, an int or a float (\<^verbatim>\<open>True == 1\<close> in Python).\<close>

fun num_of :: "json \<Rightarrow> rat option" where
  "num_of (JBool b) = Some (if b then 1 else 0)"
| "num_of (JInt i) = Some (of_int i)"
| "num_of (JFloat r) = Some r"
| "num_of _ = None"

text \<open>Python's \<^verbatim>\<open>==\<close> on decoded values; it never raises.\<close>

fun py_eq :: "json \<Rightarrow> json \<Rightarrow> bool" where
  "py_eq JNull b = (b = JNull)"
| "py_eq (JString s) b = (b = JString s)"
| "py_eq (JArray xs) (JArray ys) = list_all2 py_eq xs ys"
| "py_eq (JArray xs) _ = False"
| "py_eq (JObject xs) (JObject ys) =
     (set (map fst xs) = set (map fst ys) \<and>
      (\<forall>(k, v) \<in> set xs. case map_of ys k of None \<Rightarrow> False | Some w \<Rightarrow> py_eq v w))"
| "py_eq (JObject xs) _ = False"
| "py_eq a b = (case (num_of a, num_of b) of (Some x, Some y) \<Rightarrow> x = y | _ \<Rightarrow> False)"

text \<open>
  Python's \<^verbatim>\<open><\<close>: numbers compare by value, strings by code point, lists at the first
  position where they differ (or by length); everything else, and every mixed pair, raises
  \<^verbatim>\<open>TypeError\<close>.
\<close>

fun py_lt :: "json \<Rightarrow> json \<Rightarrow> py_error + bool"
  and py_lt_list :: "json list \<Rightarrow> json list \<Rightarrow> py_error + bool" where
  "py_lt (JString a) (JString b) = Inr (a < b)"
| "py_lt (JArray xs) (JArray ys) = py_lt_list xs ys"
| "py_lt a b = (case (num_of a, num_of b) of (Some x, Some y) \<Rightarrow> Inr (x < y) | _ \<Rightarrow> Inl TypeError)"
| "py_lt_list [] [] = Inr False"
| "py_lt_list [] (y # ys) = Inr True"
| "py_lt_list (x # xs) [] = Inr False"
| "py_lt_list (x # xs) (y # ys) = (if py_eq x y then py_lt_list xs ys else py_lt x y)"

text \<open>\<^verbatim>\<open>a > b\<close> on these values is \<^verbatim>\<open>b < a\<close>, with the same \<^verbatim>\<open>TypeError\<close> cases.\<close>

definition py_gt :: "json \<Rightarrow> json \<Rightarrow> py_error + bool" where
  "py_gt a b = py_lt b a"

text \<open>\<^verbatim>\<open>d.get(k, dflt)\<close> on a dict, and on an arbitrary value (only a dict has \<^verbatim>\<open>get\<close>).\<close>

definition dict_get :: "(string \<times> json) list \<Rightarrow> string \<Rightarrow> json \<Rightarrow> json" where
  "dict_get d k dflt = (case map_of d k of None \<Rightarrow> dflt | Some v \<Rightarrow> v)"

definition py_get :: "json \<Rightarrow> string \<Rightarrow> json \<Rightarrow> py_error + json" where
  "py_get x k dflt = (case x of JObject d \<Rightarrow> Inr (dict_get d k dflt) | _ \<Rightarrow> Inl AttributeError)"

section \<open>Strings\<close>

text \<open>
  A \<open>string\<close> is the UTF-8 encoding of a Python string. \<^verbatim>\<open>str.strip()\<close> removes the
  leading and trailing whitespace characters: the code points for which \<^verbatim>\<open>str.isspace\<close>
  holds, listed here by their encodings (U+0009 to U+000D, U+001C to U+0020, U+0085, U+00A0,
  U+1680, U+2000 to U+200A, U+2028, U+2029, U+202F, U+205F, U+3000).
\<close>

definition whitespace :: "string list" where
  "whitespace =
     map (\<lambda>c. [c]) [CHR 0x09, CHR 0x0A, CHR 0x0B, CHR 0x0C, CHR 0x0D,
                    CHR 0x1C, CHR 0x1D, CHR 0x1E, CHR 0x1F, CHR 0x20]
     @ [[CHR 0xC2, CHR 0x85], [CHR 0xC2, CHR 0xA0], [CHR 0xE1, CHR 0x9A, CHR 0x80]]
     @ map (\<lambda>c. [CHR 0xE2, CHR 0x80, c])
         [CHR 0x80, CHR 0x81, CHR 0x82, CHR 0x83, CHR 0x84, CHR 0x85, CHR 0x86, CHR 0x87,
          CHR 0x88, CHR 0x89, CHR 0x8A, CHR 0xA8, CHR 0xA9, CHR 0xAF]
     @ [[CHR 0xE2, CHR 0x81, CHR 0x9F], [CHR 0xE3, CHR 0x80, CHR 0x80]]"

fun is_prefix :: "string \<Rightarrow> string \<Rightarrow> bool" where
  "is_prefix [] s = True"
| "is_prefix (c # cs) [] = False"
| "is_prefix (c # cs) (d # ds) = (c = d \<and> is_prefix cs ds)"

text \<open>\<open>strip_left ws n s\<close> removes from the front of \<open>s\<close> up to \<open>n\<close> of the sequences \<open>ws\<close>;
  every sequence has at least one byte, so \<open>length s\<close> steps remove them all.\<close>

fun strip_left :: "string list \<Rightarrow> nat \<Rightarrow> string \<Rightarrow> string" where
  "strip_left ws 0 s = s"
| "strip_left ws (Suc n) s =
     (case find (\<lambda>w. is_prefix w s) ws of
        None \<Rightarrow> s
      | Some w \<Rightarrow> strip_left ws n (drop (length w) s))"

definition lstrip :: "string \<Rightarrow> string" where
  "lstrip s = strip_left whitespace (length s) s"

definition rstrip :: "string \<Rightarrow> string" where
  "rstrip s = rev (strip_left (map rev whitespace) (length s) (rev s))"

definition strip :: "string \<Rightarrow> string" where
  "strip s = rstrip (lstrip s)"

text \<open>\<^verbatim>\<open>s.replace('Z', '+00:00')\<close>.\<close>

definition replace_Z :: "string \<Rightarrow> string" where
  "replace_Z s = concat (map (\<lambda>c. if c = CHR ''Z'' then ''+00:00'' else [c]) s)"

text \<open>\<^verbatim>\<open>needle in s\<close> for two strings: \<open>needle\<close> occurs in \<open>s\<close> as a substring.\<close>

fun str_contains :: "string \<Rightarrow> string \<Rightarrow> bool" where
  "str_contains needle [] = (needle = [])"
| "str_contains needle (c # cs) = (is_prefix needle (c # cs) \<or> str_contains needle cs)"

text \<open>The decimal rendering of a non-negative integer (\<^verbatim>\<open>f"{n}"\<close>), and \<^verbatim>\<open>f"{h:02d}"\<close>.\<close>

definition digit_char :: "nat \<Rightarrow> char" where
  "digit_char d = ''0123456789'' ! d"

fun str_nat :: "nat \<Rightarrow> string" where
  "str_nat n = (if n < 10 then [digit_char n] else str_nat (n div 10) @ [digit_char (n mod 10)])"

declare str_nat.simps [simp del]

definition fmt_02d :: "nat \<Rightarrow> string" where
  "fmt_02d h = (if h < 10 then CHR ''0'' # str_nat h else str_nat h)"

text \<open>\<^verbatim>\<open>sep.join(parts)\<close>.\<close>

fun join :: "string \<Rightarrow> string list \<Rightarrow> string" where
  "join sep [] = []"
| "join sep [p] = p"
| "join sep (p # q # ps) = p @ sep @ join sep (q # ps)"

section \<open>Numbers\<close>

text \<open>
  A Python float is an IEEE 754 binary64 number. The model keeps a finite float as the
  rational that is its exact value, and every operation on floats rounds its exact result
  to the nearest float, a tie going to the even significand: \<open>fl\<close>. A positive \<open>x\<close> with
  \<open>2 ^ e \<le> x < 2 ^ (e + 1)\<close> is rounded to a multiple of \<open>2 ^ (e - 52)\<close> (53 significant
  bits), and to a multiple of \<open>2 ^ (- 1074)\<close> below \<open>2 ^ (- 1022)\<close> (subnormal numbers).
  A result above \<open>max_double\<close> is no finite float; where that can happen, the operation
  tests it.
\<close>

definition ilog2 :: "rat \<Rightarrow> int" where
  "ilog2 x = (if 1 \<le> x then bitlen \<lfloor>x\<rfloor> - 1 else - bitlen (\<lceil>1 / x\<rceil> - 1))"

definition round_half_even :: "rat \<Rightarrow> int" where
  "round_half_even y =
     (let f = \<lfloor>y\<rfloor>; d = y - of_int f
      in if d < 1 / 2 then f else if 1 / 2 < d then f + 1 else if even f then f else f + 1)"

definition ulp :: "rat \<Rightarrow> rat" where
  "ulp a = 2 powi (max (ilog2 a) (- 1022) - 52)"

definition fl :: "rat \<Rightarrow> rat" where
  "fl x = (if x = 0 then 0
           else sgn x * of_int (round_half_even (\<bar>x\<bar> / ulp \<bar>x\<bar>)) * ulp \<bar>x\<bar>)"

definition max_double :: rat where
  "max_double = of_int ((2 ^ 53 - 1) * 2 ^ 971)"

text \<open>\<^verbatim>\<open>a / b\<close> on two ints: the correctly rounded quotient, and \<^verbatim>\<open>OverflowError\<close> when it
  is too large for a float (the divisors of the source are never 0).\<close>

definition int_truediv :: "int \<Rightarrow> int \<Rightarrow> py_error + rat" where
  "int_truediv a b =
     (let q = fl (of_int a / of_int b)
      in if \<bar>q\<bar> \<le> max_double then Inr q else Inl OverflowError)"

text \<open>
  \<^verbatim>\<open>round(x, 1)\<close> on a float (or an int): the multiple of one tenth nearest to the exact
  value of \<open>x\<close>, a tie going to the even tenth, as a float.
\<close>

definition py_round1 :: "rat \<Rightarrow> rat" where
  "py_round1 x = fl (of_int (round_half_even (x * 10)) / 10)"

section \<open>Timestamps\<close>

text \<open>
  A \<^verbatim>\<open>datetime\<close>: the proleptic Gregorian ordinal of its day, its wall-clock fields and,
  when it is timezone-aware, its UTC offset in microseconds. The parser
  \<^verbatim>\<open>datetime.fromisoformat\<close> belongs to the standard library; the functions below take it as
  the parameter \<open>fromiso\<close>, with \<open>None\<close> for \<^verbatim>\<open>ValueError\<close>.
\<close>

record pydatetime =
  dt_ordinal :: int
  dt_hour :: nat
  dt_minute :: nat
  dt_second :: nat
  dt_microsecond :: nat
  dt_utcoffset :: "int option"

definition dt_micros :: "pydatetime \<Rightarrow> int" where
  "dt_micros t =
     (((dt_ordinal t * 24 + int (dt_hour t)) * 60 + int (dt_minute t)) * 60 + int (dt_second t))
       * 1000000 + int (dt_microsecond t)"

text \<open>
  \<^verbatim>\<open>(e - s).total_seconds() / 3600\<close>: the microseconds of the difference divided by
  \<open>10 ^ 6\<close> (an int division, rounded to a float), then the float divided by 3600. Subtracting
  a naive and an aware datetime raises \<^verbatim>\<open>TypeError\<close>.
\<close>

definition hours_of_micros :: "int \<Rightarrow> rat" where
  "hours_of_micros us = fl (fl (of_int us / 1000000) / 3600)"

definition dt_diff_hours :: "pydatetime \<Rightarrow> pydatetime \<Rightarrow> py_error + rat" where
  "dt_diff_hours e s =
     (case (dt_utcoffset e, dt_utcoffset s) of
        (None, None) \<Rightarrow> Inr (hours_of_micros (dt_micros e - dt_micros s))
      | (Some oe, Some os) \<Rightarrow>
          Inr (hours_of_micros ((dt_micros e - oe) - (dt_micros s - os)))
      | _ \<Rightarrow> Inl TypeError)"

section \<open>Reading one day's log\<close>

text \<open>
  The log of a day is \<^verbatim>\<open>activity_<date>.jsonl\<close> in the activity directory, \<open>date\<close> being
  the day as \<^verbatim>\<open>strftime("%Y-%m-%d")\<close> renders it. A file is absent, or it yields the lines
  read before the end of the file or before an \<^verbatim>\<open>IOError\<close> (whose message is then kept),
  or it is no UTF-8 text: reading it then raises \<^verbatim>\<open>UnicodeDecodeError\<close>, which no clause
  of the source catches.
\<close>

datatype log_file = Missing | Content "string list" "string option" | Undecodable

definition get_log_file_path :: "string \<Rightarrow> string" where
  "get_log_file_path date_str = ''activity_'' @ date_str @ ''.jsonl''"

text \<open>
  The loop over the lines of the file. \<^verbatim>\<open>json.loads\<close> is the parameter \<open>loads\<close>: \<open>Inl\<close> is
  a \<^verbatim>\<open>JSONDecodeError\<close> with its message. The result is the list of decoded values and the
  lines written to \<^verbatim>\<open>stderr\<close>.
\<close>

fun read_lines :: "(string \<Rightarrow> string + json) \<Rightarrow> string list \<Rightarrow> json list \<times> string list" where
  "read_lines loads [] = ([], [])"
| "read_lines loads (l # ls) =
     (let line = strip l; (activities, warnings) = read_lines loads ls
      in if line \<noteq> [] then
           (case loads line of
              Inr activity \<Rightarrow> (activity # activities, warnings)
            | Inl e \<Rightarrow> (activities, (''Warning: Skipping malformed JSON line: '' @ e) # warnings))
         else (activities, warnings))"

text \<open>\<^verbatim>\<open>load_daily_activities\<close> raises for a file that is no UTF-8 text (\<open>load_fault\<close>) and
  returns its list otherwise.\<close>

definition load_fault :: "(string \<Rightarrow> log_file) \<Rightarrow> string \<Rightarrow> py_error option" where
  "load_fault fs date_str =
     (case fs (get_log_file_path date_str) of
        Undecodable \<Rightarrow> Some UnicodeDecodeError
      | _ \<Rightarrow> None)"

definition load_daily_activities ::
  "(string \<Rightarrow> string + json) \<Rightarrow> (string \<Rightarrow> log_file) \<Rightarrow> string \<Rightarrow> json list \<times> string list" where
  "load_daily_activities loads fs date_str =
     (let log_file = get_log_file_path date_str
      in case fs log_file of
           Missing \<Rightarrow> ([], [])
         | Undecodable \<Rightarrow> ([], [])
         | Content lines io_error \<Rightarrow>
             (let (activities, warnings) = read_lines loads lines
              in (activities,
                  warnings @ (case io_error of
                                None \<Rightarrow> []
                              | Some e \<Rightarrow> [''Error reading log file '' @ log_file @ '': '' @ e]))))"

section \<open>The pattern analyzer\<close>

text \<open>
  The dict returned by \<^verbatim>\<open>analyze_daily_patterns\<close>, one field per key. The return for an
  empty list (lines 59 to 69 of the source) has no \<^verbatim>\<open>breaks_completed\<close> and no
  \<^verbatim>\<open>reschedule_count\<close> key: \<open>None\<close> in these two fields is an absent key.
  \<^verbatim>\<open>break_types\<close> and \<^verbatim>\<open>hourly_activity\<close> are dicts, kept as their items in insertion
  order.
\<close>

record daily_analysis =
  total_breaks :: nat
  breaks_completed :: "nat option"
  total_work_minutes :: json
  break_compliance :: rat
  deep_work_sessions :: nat
  commands_used :: nat
  pause_events :: nat
  break_types :: "(string \<times> nat) list"
  hourly_activity :: "(nat \<times> nat) list"
  reschedule_count :: "nat option"
  insights :: "string list"

text \<open>The local variables of the loop (those whose names are also keys of the result carry
  the suffix \<open>_acc\<close>).\<close>

record counters =
  break_count :: nat
  break_completed_count :: nat
  deep_work_sessions_acc :: nat
  commands_used_acc :: nat
  pause_events_acc :: nat
  break_types_acc :: "(string \<times> nat) list"
  hourly_activity_acc :: "(nat \<times> nat) list"
  reschedule_count_acc :: nat

definition init_counters :: counters where
  "init_counters =
     \<lparr>break_count = 0, break_completed_count = 0, deep_work_sessions_acc = 0,
      commands_used_acc = 0, pause_events_acc = 0,
      break_types_acc = [(''eye_care'', 0), (''custom_message'', 0)],
      hourly_activity_acc = [], reschedule_count_acc = 0\<rparr>"

text \<open>\<^verbatim>\<open>d[k] = d.get(k, 0) + 1\<close>: a key already there keeps its place, a new key goes to
  the end.\<close>

fun dict_incr :: "'k \<Rightarrow> ('k \<times> nat) list \<Rightarrow> ('k \<times> nat) list" where
  "dict_incr k [] = [(k, 1)]"
| "dict_incr k ((k', v) # rest) =
     (if k = k' then (k', v + 1) # rest else (k', v) # dict_incr k rest)"

text \<open>Lines 82 to 86: the work minutes are read from the last activity only.\<close>

definition final_work_minutes_of :: "json \<Rightarrow> py_error + json" where
  "final_work_minutes_of last_activity =
     (case last_activity of
        JObject d \<Rightarrow>
          (case map_of d ''system_state'' of
             None \<Rightarrow> Inr (JInt 0)
           | Some system_state \<Rightarrow> py_get system_state ''total_work_minutes_today'' (JInt 0))
      | JString s \<Rightarrow> if str_contains ''system_state'' s then Inl TypeError else Inr (JInt 0)
      | JArray xs \<Rightarrow>
          if list_ex (py_eq (JString ''system_state'')) xs then Inl TypeError else Inr (JInt 0)
      | _ \<Rightarrow> Inl TypeError)"

text \<open>Lines 95 to 100: the hour of a timestamp; \<^verbatim>\<open>AttributeError\<close> (the timestamp is no
  string) and \<^verbatim>\<open>ValueError\<close> (it does not parse) are both caught.\<close>

definition parse_hour :: "(string \<Rightarrow> pydatetime option) \<Rightarrow> json \<Rightarrow> nat option" where
  "parse_hour fromiso timestamp =
     (case timestamp of
        JString s \<Rightarrow> map_option dt_hour (fromiso (replace_Z s))
      | _ \<Rightarrow> None)"

text \<open>Lines 103 to 108, after \<^verbatim>\<open>break_count += 1\<close>: \<^verbatim>\<open>break_type in break_types\<close> hashes
  the value, which raises \<^verbatim>\<open>TypeError\<close> for a list or a dict.\<close>

definition count_break_type :: "json \<Rightarrow> (string \<times> nat) list \<Rightarrow> py_error + (string \<times> nat) list" where
  "count_break_type break_type bt =
     (case break_type of
        JArray _ \<Rightarrow> Inl TypeError
      | JObject _ \<Rightarrow> Inl TypeError
      | JString s \<Rightarrow> Inr (if s \<in> set (map fst bt) then dict_incr s bt else bt)
      | _ \<Rightarrow> Inr bt)"

text \<open>Lines 95 to 100: the histogram of hours gets the hour of a timestamp that parses.\<close>

definition count_hour :: "(string \<Rightarrow> pydatetime option) \<Rightarrow> json \<Rightarrow> counters \<Rightarrow> counters" where
  "count_hour fromiso timestamp c =
     (case parse_hour fromiso timestamp of
        Some h \<Rightarrow> c\<lparr>hourly_activity_acc := dict_incr h (hourly_activity_acc c)\<rparr>
      | None \<Rightarrow> c)"

text \<open>Lines 103 to 123: the \<^verbatim>\<open>if\<close>/\<^verbatim>\<open>elif\<close> chain on the event type.\<close>

definition count_event :: "json \<Rightarrow> json \<Rightarrow> counters \<Rightarrow> py_error + counters" where
  "count_event event_type event_data c =
     (if event_type = JString ''break_shown'' then
        (case py_get event_data ''break_type'' (JString ''unknown'') of
           Inl e \<Rightarrow> Inl e
         | Inr break_type \<Rightarrow>
             (case count_break_type break_type (break_types_acc c) of
                Inl e \<Rightarrow> Inl e
              | Inr bt \<Rightarrow> Inr (c\<lparr>break_count := break_count c + 1, break_types_acc := bt\<rparr>)))
      else if event_type = JString ''break_completed'' then
        Inr (c\<lparr>break_completed_count := break_completed_count c + 1\<rparr>)
      else if event_type = JString ''session_started'' then
        (case py_get event_data ''session_type'' JNull of
           Inl e \<Rightarrow> Inl e
         | Inr session_type \<Rightarrow>
             Inr (if session_type = JString ''deep_work''
                  then c\<lparr>deep_work_sessions_acc := deep_work_sessions_acc c + 1\<rparr>
                  else c))
      else if event_type = JString ''command_received'' then
        Inr (c\<lparr>commands_used_acc := commands_used_acc c + 1\<rparr>)
      else if event_type = JString ''pause_toggled'' then
        Inr (c\<lparr>pause_events_acc := pause_events_acc c + 1\<rparr>)
      else if event_type = JString ''break_rescheduled'' then
        Inr (c\<lparr>reschedule_count_acc := reschedule_count_acc c + 1\<rparr>)
      else Inr c)"

text \<open>The body of the loop (lines 90 to 123) on one activity: \<^verbatim>\<open>activity.get\<close> raises
  \<^verbatim>\<open>AttributeError\<close> when the activity is no dict.\<close>

definition process_activity ::
  "(string \<Rightarrow> pydatetime option) \<Rightarrow> counters \<Rightarrow> json \<Rightarrow> py_error + counters" where
  "process_activity fromiso c activity =
     (case activity of
        JObject d \<Rightarrow>
          (let timestamp = dict_get d ''timestamp'' (JString '''');
               event_type = dict_get d ''event_type'' (JString '''');
               event_data = dict_get d ''event_data'' (JObject [])
           in count_event event_type event_data (count_hour fromiso timestamp c))
      | _ \<Rightarrow> Inl AttributeError)"

text \<open>The loop: the first exception ends it.\<close>

fun process_all ::
  "(string \<Rightarrow> pydatetime option) \<Rightarrow> counters \<Rightarrow> json list \<Rightarrow> py_error + counters" where
  "process_all fromiso c [] = Inr c"
| "process_all fromiso c (activity # rest) =
     (case process_activity fromiso c activity of
        Inl e \<Rightarrow> Inl e
      | Inr c' \<Rightarrow> process_all fromiso c' rest)"

text \<open>
  Line 126: the compliance rate before rounding,
  \<^verbatim>\<open>break_completed_count / break_count * 100\<close>: the quotient of the two ints rounded to a
  float, and its product with 100 rounded again. Both counts are at most the length of a
  Python list, far below the range where a float overflows.
\<close>

definition compliance_rate :: "counters \<Rightarrow> rat" where
  "compliance_rate c =
     (if break_count c > 0
      then fl (fl (of_nat (break_completed_count c) / of_nat (break_count c)) * 100)
      else 0)"

text \<open>
  Line 149: \<^verbatim>\<open>sorted(hourly_activity.items(), key=lambda x: x[1], reverse=True)[:3]\<close>.
  Python's sort is stable also with \<^verbatim>\<open>reverse=True\<close>: items with equal counts keep the order
  they have in the dict. That is the stable ascending sort on the negated count.
\<close>

definition peak_hours_of :: "(nat \<times> nat) list \<Rightarrow> (nat \<times> nat) list" where
  "peak_hours_of hourly = take 3 (sort_key (\<lambda>x. - int (snd x)) hourly)"

text \<open>Lines 129 to 152: the insight rules, in their order.\<close>

definition generate_insights :: "counters \<Rightarrow> string list" where
  "generate_insights c =
     (let break_compliance = compliance_rate c;
          peak_hours = peak_hours_of (hourly_activity_acc c)
      in (if break_compliance < 50
          then [''Low break compliance detected - consider adjusting break duration or frequency'']
          else if break_compliance > 90
          then [''Excellent break compliance! You're taking good care of your eyes'']
          else [])
       @ (if deep_work_sessions_acc c > 0
          then [''Used '' @ str_nat (deep_work_sessions_acc c)
                @ '' deep work session(s) - great for focused productivity'']
          else [])
       @ (if of_nat (reschedule_count_acc c) > of_nat (break_count c) * (3 / 10 :: rat)
          then [''Frequent break rescheduling detected - consider adjusting default intervals'']
          else [])
       @ (if pause_events_acc c > 3
          then [''Multiple pause/resume events - consider if current settings match your workflow'']
          else [])
       @ (if commands_used_acc c > 5
          then [''Active user of voice commands - you're making the most of Restly's features!'']
          else [])
       @ (if peak_hours \<noteq> []
          then [''Most active hours: ''
                @ join '', '' (map (\<lambda>(h, _). fmt_02d h @ '':00'') peak_hours)]
          else []))"

text \<open>Lines 154 to 166: the dict returned for a non-empty list.\<close>

definition build_analysis :: "json \<Rightarrow> counters \<Rightarrow> daily_analysis" where
  "build_analysis final_work_minutes c =
     \<lparr>total_breaks = break_count c,
      breaks_completed = Some (break_completed_count c),
      total_work_minutes = final_work_minutes,
      break_compliance = py_round1 (compliance_rate c),
      deep_work_sessions = deep_work_sessions_acc c,
      commands_used = commands_used_acc c,
      pause_events = pause_events_acc c,
      break_types = break_types_acc c,
      hourly_activity = hourly_activity_acc c,
      reschedule_count = Some (reschedule_count_acc c),
      insights = generate_insights c\<rparr>"

text \<open>Lines 59 to 69: the dict returned for an empty list.\<close>

definition empty_analysis :: daily_analysis where
  "empty_analysis =
     \<lparr>total_breaks = 0,
      breaks_completed = None,
      total_work_minutes = JInt 0,
      break_compliance = 0,
      deep_work_sessions = 0,
      commands_used = 0,
      pause_events = 0,
      break_types = [],
      hourly_activity = [],
      reschedule_count = None,
      insights = []\<rparr>"

definition analyze_daily_patterns ::
  "(string \<Rightarrow> pydatetime option) \<Rightarrow> json list \<Rightarrow> py_error + daily_analysis" where
  "analyze_daily_patterns fromiso activities =
     (if activities = [] then Inr empty_analysis
      else case final_work_minutes_of (last activities) of
             Inl e \<Rightarrow> Inl e
           | Inr final_work_minutes \<Rightarrow>
               (case process_all fromiso init_counters activities of
                  Inl e \<Rightarrow> Inl e
                | Inr c \<Rightarrow> Inr (build_analysis final_work_minutes c)))"

section \<open>The daily summary\<close>

text \<open>
  \<^verbatim>\<open>min(xs, key=f)\<close> and \<^verbatim>\<open>max(xs, key=f)\<close> on a non-empty list \<open>x # xs\<close>: the key of every
  item is computed, a later item replaces the current one when its key is \<^verbatim>\<open><\<close> (for
  \<^verbatim>\<open>max\<close>: \<^verbatim>\<open>>\<close>) the current key, so the first of several extremal items wins. An
  exception of the key function or of the comparison leaves the loop.
\<close>

fun py_extreme_from ::
  "(json \<Rightarrow> json \<Rightarrow> py_error + bool) \<Rightarrow> ('a \<Rightarrow> py_error + json) \<Rightarrow> 'a \<Rightarrow> json \<Rightarrow> 'a list
     \<Rightarrow> py_error + 'a" where
  "py_extreme_from cmp key best best_key [] = Inr best"
| "py_extreme_from cmp key best best_key (x # xs) =
     (case key x of
        Inl e \<Rightarrow> Inl e
      | Inr k \<Rightarrow>
          (case cmp k best_key of
             Inl e \<Rightarrow> Inl e
           | Inr better \<Rightarrow>
               if better then py_extreme_from cmp key x k xs
               else py_extreme_from cmp key best best_key xs))"

definition py_extreme ::
  "(json \<Rightarrow> json \<Rightarrow> py_error + bool) \<Rightarrow> ('a \<Rightarrow> py_error + json) \<Rightarrow> 'a \<Rightarrow> 'a list \<Rightarrow> py_error + 'a" where
  "py_extreme cmp key x xs =
     (case key x of Inl e \<Rightarrow> Inl e | Inr k \<Rightarrow> py_extreme_from cmp key x k xs)"

definition py_min_by :: "('a \<Rightarrow> py_error + json) \<Rightarrow> 'a \<Rightarrow> 'a list \<Rightarrow> py_error + 'a" where
  "py_min_by = py_extreme py_lt"

definition py_max_by :: "('a \<Rightarrow> py_error + json) \<Rightarrow> 'a \<Rightarrow> 'a list \<Rightarrow> py_error + 'a" where
  "py_max_by = py_extreme py_gt"

text \<open>The key of lines 175 and 176: \<^verbatim>\<open>lambda x: x.get("timestamp", "")\<close>.\<close>

definition timestamp_key :: "json \<Rightarrow> py_error + json" where
  "timestamp_key x = py_get x ''timestamp'' (JString '''')"

text \<open>
  Lines 179 and 180, for one activity:
  \<^verbatim>\<open>datetime.fromisoformat(activity["timestamp"].replace('Z', '+00:00'))\<close> inside the
  \<^verbatim>\<open>try\<close>. \<open>Caught\<close> is a \<^verbatim>\<open>KeyError\<close> or \<^verbatim>\<open>ValueError\<close>, which the \<^verbatim>\<open>except\<close> clause turns
  into a duration of 0; \<open>Raised\<close> is an exception that the clause does not catch.
\<close>

datatype 'a attempt = Caught | Raised py_error | Got 'a

definition parse_timestamp :: "(string \<Rightarrow> pydatetime option) \<Rightarrow> json \<Rightarrow> pydatetime attempt" where
  "parse_timestamp fromiso activity =
     (case activity of
        JObject d \<Rightarrow>
          (case map_of d ''timestamp'' of
             None \<Rightarrow> Caught
           | Some (JString s) \<Rightarrow>
               (case fromiso (replace_Z s) of None \<Rightarrow> Caught | Some t \<Rightarrow> Got t)
           | Some _ \<Rightarrow> Raised AttributeError)
      | _ \<Rightarrow> Raised TypeError)"

text \<open>Lines 178 to 183.\<close>

definition duration_between ::
  "(string \<Rightarrow> pydatetime option) \<Rightarrow> json \<Rightarrow> json \<Rightarrow> py_error + rat" where
  "duration_between fromiso first_activity last_activity =
     (case parse_timestamp fromiso first_activity of
        Caught \<Rightarrow> Inr 0
      | Raised e \<Rightarrow> Inl e
      | Got start_time \<Rightarrow>
          (case parse_timestamp fromiso last_activity of
             Caught \<Rightarrow> Inr 0
           | Raised e \<Rightarrow> Inl e
           | Got end_time \<Rightarrow> dt_diff_hours end_time start_time))"

text \<open>Lines 174 to 185: \<^verbatim>\<open>active_duration\<close>, before rounding.\<close>

definition active_duration :: "(string \<Rightarrow> pydatetime option) \<Rightarrow> json list \<Rightarrow> py_error + rat" where
  "active_duration fromiso activities =
     (case activities of
        [] \<Rightarrow> Inr 0
      | x # xs \<Rightarrow>
          (case py_min_by timestamp_key x xs of
             Inl e \<Rightarrow> Inl e
           | Inr first_activity \<Rightarrow>
               (case py_max_by timestamp_key x xs of
                  Inl e \<Rightarrow> Inl e
                | Inr last_activity \<Rightarrow> duration_between fromiso first_activity last_activity)))"

record daily_summary =
  date :: string
  total_activities :: nat
  active_duration_hours :: rat
  analysis :: daily_analysis
  raw_activities :: "json list"
  generated_at :: string

text \<open>\<^verbatim>\<open>generate_daily_summary\<close>; \<open>now\<close> is \<^verbatim>\<open>datetime.now().isoformat()\<close>.\<close>

definition generate_daily_summary ::
  "(string \<Rightarrow> string + json) \<Rightarrow> (string \<Rightarrow> pydatetime option) \<Rightarrow> string \<Rightarrow> (string \<Rightarrow> log_file)
     \<Rightarrow> string \<Rightarrow> py_error + daily_summary" where
  "generate_daily_summary loads fromiso now fs date_str =
     (case load_fault fs date_str of
        Some e \<Rightarrow> Inl e
      | None \<Rightarrow>
          (let activities = fst (load_daily_activities loads fs date_str)
           in case analyze_daily_patterns fromiso activities of
                Inl e \<Rightarrow> Inl e
              | Inr a \<Rightarrow>
                  (case active_duration fromiso activities of
                     Inl e \<Rightarrow> Inl e
                   | Inr d \<Rightarrow>
                       Inr \<lparr>date = date_str,
                            total_activities = length activities,
                            active_duration_hours = py_round1 d,
                            analysis = a,
                            raw_activities = activities,
                            generated_at = now\<rparr>)))"

section \<open>The document for the summarizer\<close>

text \<open>
  \<^verbatim>\<open>max(break_types.items(), key=lambda x: x[1])[0] if break_types else "none"\<close>
  (line 216 of \<^verbatim>\<open>daily_summary.py\<close>, line 143 of \<^verbatim>\<open>dashboard_server.py\<close>). The counts are
  ints, so the comparison cannot raise.
\<close>

fun max_item_from :: "string \<times> nat \<Rightarrow> (string \<times> nat) list \<Rightarrow> string \<times> nat" where
  "max_item_from best [] = best"
| "max_item_from best (x # xs) =
     (if snd x > snd best then max_item_from x xs else max_item_from best xs)"

definition preferred_break_type_of :: "(string \<times> nat) list \<Rightarrow> string" where
  "preferred_break_type_of bt =
     (case bt of [] \<Rightarrow> ''none'' | item # rest \<Rightarrow> fst (max_item_from item rest))"

text \<open>The dicts of \<^verbatim>\<open>prepare_ai_summary_data\<close> (fields whose key is also a key of the
  analysis carry a prefix).\<close>

record productivity_metrics =
  pm_total_work_minutes :: json
  break_compliance_rate :: rat
  pm_deep_work_sessions :: nat
  total_breaks_taken :: nat
  total_breaks_suggested :: nat

record behavior_patterns =
  bp_commands_used :: nat
  pause_resume_events :: nat
  break_reschedules :: nat
  preferred_break_type :: string
  peak_activity_hours :: "nat list"

record ai_data =
  ai_date :: string
  ai_productivity_metrics :: productivity_metrics
  ai_behavior_patterns :: behavior_patterns
  ai_insights :: "string list"
  recommendations_needed :: "string list"

text \<open>Lines 203 to 227, on the summary: \<^verbatim>\<open>d["k"]\<close> raises \<^verbatim>\<open>KeyError\<close> for an absent key,
  the entries of the dict display being evaluated in their order.\<close>

definition project_ai_data :: "daily_summary \<Rightarrow> py_error + ai_data" where
  "project_ai_data summary =
     (let a = analysis summary
      in case breaks_completed a of
           None \<Rightarrow> Inl KeyError
         | Some completed \<Rightarrow>
             (case reschedule_count a of
                None \<Rightarrow> Inl KeyError
              | Some reschedules \<Rightarrow>
                  Inr \<lparr>ai_date = date summary,
                       ai_productivity_metrics =
                         \<lparr>pm_total_work_minutes = total_work_minutes a,
                          break_compliance_rate = break_compliance a,
                          pm_deep_work_sessions = deep_work_sessions a,
                          total_breaks_taken = completed,
                          total_breaks_suggested = total_breaks a\<rparr>,
                       ai_behavior_patterns =
                         \<lparr>bp_commands_used = commands_used a,
                          pause_resume_events = pause_events a,
                          break_reschedules = reschedules,
                          preferred_break_type = preferred_break_type_of (break_types a),
                          peak_activity_hours = map fst (hourly_activity a)\<rparr>,
                       ai_insights = insights a,
                       recommendations_needed =
                         [''break_frequency'', ''work_session_optimization'',
                          ''eye_health_habits'', ''productivity_improvements'']\<rparr>))"

definition prepare_ai_summary_data ::
  "(string \<Rightarrow> string + json) \<Rightarrow> (string \<Rightarrow> pydatetime option) \<Rightarrow> string \<Rightarrow> (string \<Rightarrow> log_file)
     \<Rightarrow> string \<Rightarrow> py_error + ai_data" where
  "prepare_ai_summary_data loads fromiso now fs date_str =
     (case generate_daily_summary loads fromiso now fs date_str of
        Inl e \<Rightarrow> Inl e
      | Inr summary \<Rightarrow> project_ai_data summary)"

section \<open>The dashboard document\<close>

text \<open>
  The scores are floats that may be infinite: the product of a quotient of huge work
  minutes with 100 overflows to an infinity without raising.
\<close>

datatype pyfloat = Finite rat | PosInf | NegInf

definition float_mul :: "rat \<Rightarrow> rat \<Rightarrow> pyfloat" where
  "float_mul x y =
     (let p = fl (x * y)
      in if max_double < p then PosInf else if p < - max_double then NegInf else Finite p)"

text \<open>\<^verbatim>\<open>x / n\<close> for a decoded value \<open>x\<close> and an int \<open>n\<close>: an int division for an int or a
  bool, a float division for a float (which cannot overflow for \<open>n\<close> above 1), and
  \<^verbatim>\<open>TypeError\<close> for everything else.\<close>

definition py_truediv :: "json \<Rightarrow> int \<Rightarrow> py_error + rat" where
  "py_truediv x n =
     (case x of
        JInt i \<Rightarrow> int_truediv i n
      | JBool b \<Rightarrow> int_truediv (if b then 1 else 0) n
      | JFloat r \<Rightarrow> Inr (fl (r / of_int n))
      | _ \<Rightarrow> Inl TypeError)"

text \<open>\<^verbatim>\<open>min(100, x)\<close>: the first argument stays unless the second is smaller.\<close>

definition min_100 :: "pyfloat \<Rightarrow> pyfloat" where
  "min_100 v =
     (case v of
        Finite x \<Rightarrow> Finite (if x < 100 then x else 100)
      | PosInf \<Rightarrow> Finite 100
      | NegInf \<Rightarrow> NegInf)"

text \<open>\<^verbatim>\<open>(work_score + break_score + focus_score) / 3\<close>, every operation rounded; the focus
  score is an int of at most 100.\<close>

definition mean_of_three :: "pyfloat \<Rightarrow> rat \<Rightarrow> rat \<Rightarrow> pyfloat" where
  "mean_of_three ws bs focus =
     (case ws of
        Finite w \<Rightarrow> Finite (fl (fl (fl (w + bs) + focus) / 3))
      | PosInf \<Rightarrow> PosInf
      | NegInf \<Rightarrow> NegInf)"

text \<open>
  Lines 54 to 62 of \<^verbatim>\<open>dashboard_server.py\<close>: the scores before rounding. The work minutes
  are whatever value the log carried: dividing a value that is no number raises
  \<^verbatim>\<open>TypeError\<close>, dividing an int too large for a float raises \<^verbatim>\<open>OverflowError\<close>.
  \<open>break_compliance\<close> is finite.
\<close>

record scores =
  work_score :: pyfloat
  break_score :: pyfloat
  focus_score :: pyfloat
  overall_score :: pyfloat

definition compute_scores :: "daily_analysis \<Rightarrow> py_error + scores" where
  "compute_scores a =
     (case py_truediv (total_work_minutes a) 480 of
        Inl e \<Rightarrow> Inl e
      | Inr q \<Rightarrow>
          (let ws = min_100 (float_mul q 100);
               bs = break_compliance a;
               focus = (if rat_of_nat (deep_work_sessions a * 25) < 100
                        then of_nat (deep_work_sessions a * 25) else 100)
           in Inr \<lparr>work_score = ws, break_score = Finite bs, focus_score = Finite focus,
                   overall_score = mean_of_three ws bs focus\<rparr>))"

text \<open>Lines 109 to 114: the scores as published, each rounded to one decimal
  (\<^verbatim>\<open>round\<close> keeps an infinity).\<close>

definition round1 :: "pyfloat \<Rightarrow> pyfloat" where
  "round1 v = (case v of Finite x \<Rightarrow> Finite (py_round1 x) | PosInf \<Rightarrow> PosInf | NegInf \<Rightarrow> NegInf)"

definition published_scores :: "scores \<Rightarrow> scores" where
  "published_scores s =
     \<lparr>work_score = round1 (work_score s),
      break_score = round1 (break_score s),
      focus_score = round1 (focus_score s),
      overall_score = round1 (overall_score s)\<rparr>"

text \<open>Lines 78 to 94: the chart data. An empty histogram (or one whose counts sum to 0) is
  replaced by the sample data of line 85.\<close>

record hour_entry =
  hour :: nat
  activity_count :: nat
  label :: string

definition sample_hours :: "(nat \<times> nat) list" where
  "sample_hours = [(9, 3), (10, 5), (11, 4), (14, 2), (15, 4), (16, 3)]"

definition hourly_data_of :: "(nat \<times> nat) list \<Rightarrow> hour_entry list" where
  "hourly_data_of hourly =
     (let shown = (if hourly = [] \<or> sum_list (map snd hourly) = 0 then sample_hours else hourly)
      in map (\<lambda>h. \<lparr>hour = h,
                    activity_count = (case map_of shown h of None \<Rightarrow> 0 | Some n \<Rightarrow> n),
                    label = fmt_02d h @ '':00''\<rparr>)
             [0..<24])"

text \<open>The document of \<^verbatim>\<open>get_dashboard_data\<close>, with the fields the properties below are
  about (fields whose key is also a key of another dict carry the prefix \<open>db_\<close>).
  \<^verbatim>\<open>analysis.get(k, 0)\<close> reads an absent key as 0.\<close>

record dashboard_patterns =
  db_commands_used :: nat
  db_pause_resume_events :: nat
  db_break_reschedules :: nat
  db_preferred_break_type :: string

record dashboard_data =
  db_date :: string
  db_timestamp :: string
  db_work_hours :: rat
  db_scores :: scores
  db_breaks_current :: nat
  db_breaks_goal :: nat
  db_hourly_activity :: "hour_entry list"
  db_insights :: "string list"
  db_ai_summary :: string
  db_break_types :: "(string \<times> nat) list"
  db_behavior_patterns :: dashboard_patterns

definition get_or_0 :: "nat option \<Rightarrow> nat" where
  "get_or_0 v = (case v of None \<Rightarrow> 0 | Some n \<Rightarrow> n)"

text \<open>\<^verbatim>\<open>get_dashboard_data\<close>; \<open>ai_summary\<close> is the text that the summarizer subprocess
  left (lines 65 to 76), \<open>now\<close> is \<^verbatim>\<open>datetime.now().isoformat()\<close>. \<open>db_work_hours\<close> is
  \<^verbatim>\<open>round(work_minutes / 60, 1)\<close> of line 101, a division that can raise as well.\<close>

definition get_dashboard_data ::
  "(string \<Rightarrow> string + json) \<Rightarrow> (string \<Rightarrow> pydatetime option) \<Rightarrow> string \<Rightarrow> string
     \<Rightarrow> (string \<Rightarrow> log_file) \<Rightarrow> string \<Rightarrow> py_error + dashboard_data" where
  "get_dashboard_data loads fromiso now ai_summary fs date_str =
     (case load_fault fs date_str of
        Some e \<Rightarrow> Inl e
      | None \<Rightarrow>
          (let activities = fst (load_daily_activities loads fs date_str)
           in case analyze_daily_patterns fromiso activities of
                Inl e \<Rightarrow> Inl e
              | Inr a \<Rightarrow>
                  (case compute_scores a of
                     Inl e \<Rightarrow> Inl e
                   | Inr s \<Rightarrow>
                       (case py_truediv (total_work_minutes a) 60 of
                          Inl e \<Rightarrow> Inl e
                        | Inr work_hours \<Rightarrow>
                            Inr \<lparr>db_date = date_str,
                                 db_timestamp = now,
                                 db_work_hours = py_round1 work_hours,
                                 db_scores = published_scores s,
                                 db_breaks_current = get_or_0 (breaks_completed a),
                                 db_breaks_goal = max 1 (total_breaks a),
                                 db_hourly_activity = hourly_data_of (hourly_activity a),
                                 db_insights = insights a,
                                 db_ai_summary = ai_summary,
                                 db_break_types = break_types a,
                                 db_behavior_patterns =
                                   \<lparr>db_commands_used = commands_used a,
                                    db_pause_resume_events = pause_events a,
                                    db_break_reschedules = get_or_0 (reschedule_count a),
                                    db_preferred_break_type =
                                      preferred_break_type_of (break_types a)\<rparr>\<rparr>))))"

section \<open>Notions used to state the properties\<close>

text \<open>The event type of an activity, and the number of activities of one type.\<close>

definition event_type_of :: "json \<Rightarrow> json" where
  "event_type_of activity =
     (case activity of JObject d \<Rightarrow> dict_get d ''event_type'' (JString '''') | _ \<Rightarrow> JNull)"

definition count_type :: "string \<Rightarrow> json list \<Rightarrow> nat" where
  "count_type ty activities = length (filter (\<lambda>a. event_type_of a = JString ty) activities)"

text \<open>The hour of an activity whose timestamp parses, and the hours of a list of
  activities, in the order of the list.\<close>

definition event_hour :: "(string \<Rightarrow> pydatetime option) \<Rightarrow> json \<Rightarrow> nat option" where
  "event_hour fromiso activity =
     (case activity of
        JObject d \<Rightarrow> parse_hour fromiso (dict_get d ''timestamp'' (JString ''''))
      | _ \<Rightarrow> None)"

definition event_hours :: "(string \<Rightarrow> pydatetime option) \<Rightarrow> json list \<Rightarrow> nat list" where
  "event_hours fromiso activities = List.map_filter (event_hour fromiso) activities"

text \<open>The distinct elements of a list, in the order of their first occurrence.\<close>

fun first_seen :: "'a list \<Rightarrow> 'a list" where
  "first_seen [] = []"
| "first_seen (x # xs) = x # removeAll x (first_seen xs)"

text \<open>
  A well-formed record: a dict whose \<^verbatim>\<open>timestamp\<close>, when present, is a string, whose
  \<^verbatim>\<open>event_data\<close> and \<^verbatim>\<open>system_state\<close>, when present, are dicts, and whose
  \<^verbatim>\<open>break_type\<close>, when present, is a scalar.
\<close>

definition is_scalar :: "json \<Rightarrow> bool" where
  "is_scalar v = (case v of JArray _ \<Rightarrow> False | JObject _ \<Rightarrow> False | _ \<Rightarrow> True)"

definition is_dict :: "json \<Rightarrow> bool" where
  "is_dict v = (case v of JObject _ \<Rightarrow> True | _ \<Rightarrow> False)"

definition is_text :: "json \<Rightarrow> bool" where
  "is_text v = (case v of JString _ \<Rightarrow> True | _ \<Rightarrow> False)"

definition absent_or :: "(json \<Rightarrow> bool) \<Rightarrow> json option \<Rightarrow> bool" where
  "absent_or P v = (case v of None \<Rightarrow> True | Some x \<Rightarrow> P x)"

definition well_formed_event :: "json \<Rightarrow> bool" where
  "well_formed_event activity =
     (case activity of
        JObject d \<Rightarrow>
          absent_or is_text (map_of d ''timestamp'')
          \<and> absent_or is_dict (map_of d ''system_state'')
          \<and> (case map_of d ''event_data'' of
                None \<Rightarrow> True
              | Some (JObject ed) \<Rightarrow> absent_or is_scalar (map_of ed ''break_type'')
              | Some _ \<Rightarrow> False)
      | _ \<Rightarrow> False)"



text \<open>The lines of a log that are decoded: not blank, and accepted by the decoder.\<close>

definition decodes :: "(string \<Rightarrow> string + json) \<Rightarrow> string \<Rightarrow> bool" where
  "decodes loads l = (strip l \<noteq> [] \<and> \<not> isl (loads (strip l)))"

definition rejected :: "(string \<Rightarrow> string + json) \<Rightarrow> string \<Rightarrow> bool" where
  "rejected loads l = (strip l \<noteq> [] \<and> isl (loads (strip l)))"

definition decoded_records :: "(string \<Rightarrow> string + json) \<Rightarrow> string list \<Rightarrow> json list" where
  "decoded_records loads lines = map (\<lambda>l. projr (loads (strip l))) (filter (decodes loads) lines)"

section \<open>A sample day\<close>

text \<open>
  The values of \<^verbatim>\<open>datetime.fromisoformat\<close> on three timestamps of 2024-01-01 (day 738886 of
  the proleptic Gregorian calendar); every other string of the examples below is rejected.
\<close>

definition at_hour :: "nat \<Rightarrow> pydatetime" where
  "at_hour h = \<lparr>dt_ordinal = 738886, dt_hour = h, dt_minute = 0, dt_second = 0,
                dt_microsecond = 0, dt_utcoffset = None\<rparr>"

definition sample_fromisoformat :: "string \<Rightarrow> pydatetime option" where
  "sample_fromisoformat s =
     (if s = ''2024-01-01T09:00:00'' then Some (at_hour 9)
      else if s = ''2024-01-01T10:00:00'' then Some (at_hour 10)
      else if s = ''2024-01-01T11:00:00'' then Some (at_hour 11)
      else None)"

text \<open>Records as the producer writes them.\<close>

definition event :: "string \<Rightarrow> string \<Rightarrow> (string \<times> json) list \<Rightarrow> json" where
  "event ts ty data =
     JObject [(''timestamp'', JString ts), (''event_type'', JString ty),
              (''event_data'', JObject data)]"

definition shown_at_9 :: json where
  "shown_at_9 = event ''2024-01-01T09:00:00'' ''break_shown'' [(''break_type'', JString ''eye_care'')]"

definition completed_at_10 :: json where
  "completed_at_10 = event ''2024-01-01T10:00:00'' ''break_completed'' []"

definition completed_at_11 :: json where
  "completed_at_11 = event ''2024-01-01T11:00:00'' ''break_completed'' []"

definition rescheduled_at_10 :: json where
  "rescheduled_at_10 = event ''2024-01-01T10:00:00'' ''break_rescheduled'' []"

definition command_at_9 :: json where
  "command_at_9 = event ''2024-01-01T09:00:00'' ''command_received'' []"

definition command_untimed :: json where
  "command_untimed = JObject [(''event_type'', JString ''command_received'')]"

text \<open>
  Five log lines, and the values of \<^verbatim>\<open>json.loads\<close> on them: two records, a record
  without a timestamp, a line that is no JSON, and a line that is JSON but no record.
\<close>

definition line_shown :: string where
  \<open>line_shown = ''{"timestamp": "2024-01-01T09:00:00", "event_type": "break_shown", "event_data": {"break_type": "eye_care"}}''\<close>

definition line_completed :: string where
  \<open>line_completed = ''{"timestamp": "2024-01-01T10:00:00", "event_type": "break_completed", "event_data": {}}''\<close>

definition line_garbage :: string where
  "line_garbage = ''not json''"

definition line_number :: string where
  "line_number = ''42''"

definition line_untimed :: string where
  \<open>line_untimed = ''{"event_type": "command_received"}''\<close>

definition sample_loads :: "string \<Rightarrow> string + json" where
  "sample_loads s =
     (if s = line_shown then Inr shown_at_9
      else if s = line_completed then Inr completed_at_10
      else if s = line_untimed then Inr command_untimed
      else if s = line_number then Inr (JInt 42)
      else Inl ''Expecting value: line 1 column 1 (char 0)'')"

definition sample_date :: string where
  "sample_date = ''2024-01-01''"

text \<open>A file system that holds the given lines (each ended by a newline) as the log of the
  sample date, and nothing else.\<close>

definition sample_fs :: "string list \<Rightarrow> string \<Rightarrow> log_file" where
  "sample_fs lines path =
     (if path = ''activity_2024-01-01.jsonl''
      then Content (map (\<lambda>l. l @ [CHR 0x0A]) lines) None
      else Missing)"

text \<open>The analyses of two sample days: one break shown and one completed; one break shown
  and two completed.\<close>

definition compliant_day :: "json list" where
  "compliant_day = [shown_at_9, completed_at_10]"

definition compliant_analysis :: daily_analysis where
  "compliant_analysis =
     \<lparr>total_breaks = 1, breaks_completed = Some 1, total_work_minutes = JInt 0,
      break_compliance = 100, deep_work_sessions = 0, commands_used = 0, pause_events = 0,
      break_types = [(''eye_care'', 1), (''custom_message'', 0)],
      hourly_activity = [(9, 1), (10, 1)], reschedule_count = Some 0,
      insights = [''Excellent break compliance! You're taking good care of your eyes'',
                  ''Most active hours: 09:00, 10:00'']\<rparr>"

definition over_completed_day :: "json list" where
  "over_completed_day = [shown_at_9, completed_at_10, completed_at_11]"

definition over_completed_analysis :: daily_analysis where
  "over_completed_analysis =
     \<lparr>total_breaks = 1, breaks_completed = Some 2, total_work_minutes = JInt 0,
      break_compliance = 200, deep_work_sessions = 0, commands_used = 0, pause_events = 0,
      break_types = [(''eye_care'', 1), (''custom_message'', 0)],
      hourly_activity = [(9, 1), (10, 1), (11, 1)], reschedule_count = Some 0,
      insights = [''Excellent break compliance! You're taking good care of your eyes'',
                  ''Most active hours: 09:00, 10:00, 11:00'']\<rparr>"

text \<open>The warning of insight rule 4.\<close>

definition reschedule_warning :: string where
  "reschedule_warning =
     ''Frequent break rescheduling detected - consider adjusting default intervals''"

text \<open>A sample day with one rescheduled break and no break shown, and its analysis.\<close>

definition rescheduled_day :: "json list" where
  "rescheduled_day = [rescheduled_at_10]"

definition rescheduled_analysis :: daily_analysis where
  "rescheduled_analysis =
     \<lparr>total_breaks = 0, breaks_completed = Some 0, total_work_minutes = JInt 0,
      break_compliance = 0, deep_work_sessions = 0, commands_used = 0, pause_events = 0,
      break_types = [(''eye_care'', 0), (''custom_message'', 0)],
      hourly_activity = [(10, 1)], reschedule_count = Some 1,
      insights = [''Low break compliance detected - consider adjusting break duration or frequency'',
                  ''Frequent break rescheduling detected - consider adjusting default intervals'',
                  ''Most active hours: 10:00'']\<rparr>"

text \<open>\<^verbatim>\<open>d.get(h, 0)\<close> on a histogram.\<close>

definition count_at :: "(nat \<times> nat) list \<Rightarrow> nat \<Rightarrow> nat" where
  "count_at hist h = (case map_of hist h of None \<Rightarrow> 0 | Some n \<Rightarrow> n)"

text \<open>The lines read from the log of a day (none when there is no file).\<close>

definition log_lines :: "(string \<Rightarrow> log_file) \<Rightarrow> string \<Rightarrow> string list" where
  "log_lines fs date_str =
     (case fs (get_log_file_path date_str) of Content lines _ \<Rightarrow> lines | _ \<Rightarrow> [])"

text \<open>A file system without any log.\<close>

definition no_log :: "string \<Rightarrow> log_file" where
  "no_log path = Missing"

text \<open>Projections of the documents.\<close>

definition hourly_counts :: "dashboard_data \<Rightarrow> nat list" where
  "hourly_counts doc = map activity_count (db_hourly_activity doc)"

definition ai_preferred :: "ai_data \<Rightarrow> string" where
  "ai_preferred doc = preferred_break_type (ai_behavior_patterns doc)"

definition db_preferred :: "dashboard_data \<Rightarrow> string" where
  "db_preferred doc = db_preferred_break_type (db_behavior_patterns doc)"

text \<open>A sample log: a record, a line that is no JSON, a blank line, a record.\<close>

definition sample_log :: "string list" where
  "sample_log = [line_shown, line_garbage, ''  '', line_completed]"

definition sample_summary :: daily_summary where
  "sample_summary =
     \<lparr>date = ''2024-01-01'', total_activities = 2, active_duration_hours = 1,
      analysis = compliant_analysis, raw_activities = [shown_at_9, completed_at_10],
      generated_at = ''2024-01-02T08:00:00''\<rparr>"

text \<open>The \<^verbatim>\<open>break_types\<close> dict of a non-empty day: its two keys in the order of line 77.\<close>

definition two_break_types :: "nat \<Rightarrow> nat \<Rightarrow> (string \<times> nat) list" where
  "two_break_types e m = [(''eye_care'', e), (''custom_message'', m)]"

text \<open>A sample day on which no break is shown, and its analysis.\<close>

definition completed_only_day :: "json list" where
  "completed_only_day = [completed_at_10]"

definition completed_only_analysis :: daily_analysis where
  "completed_only_analysis =
     \<lparr>total_breaks = 0, breaks_completed = Some 1, total_work_minutes = JInt 0,
      break_compliance = 0, deep_work_sessions = 0, commands_used = 0, pause_events = 0,
      break_types = [(''eye_care'', 0), (''custom_message'', 0)],
      hourly_activity = [(10, 1)], reschedule_count = Some 0,
      insights = [''Low break compliance detected - consider adjusting break duration or frequency'',
                  ''Most active hours: 10:00'']\<rparr>"

text \<open>
  The hours of a day ranked for the "most active hours" insight: the distinct hours in the
  order of their first event, stably sorted by descending number of events. The insight
  renders the first three.
\<close>

definition ranked_hours :: "nat list \<Rightarrow> nat list" where
  "ranked_hours hours = sort_key (\<lambda>h. - int (count_list hours h)) (first_seen hours)"

definition most_active_insight :: "nat list \<Rightarrow> string" where
  "most_active_insight hs =
     ''Most active hours: '' @ join '', '' (map (\<lambda>h. fmt_02d h @ '':00'') hs)"

definition command_at_10 :: json where
  "command_at_10 = event ''2024-01-01T10:00:00'' ''command_received'' []"

text \<open>A sample day with 80 breaks shown and 23 completed.\<close>

definition day_23_of_80 :: "json list" where
  "day_23_of_80 = replicate 80 shown_at_9 @ replicate 23 completed_at_10"

section \<open>Rounding\<close>

lemma round_half_even_le:
  assumes "y \<le> of_int m"
  shows "round_half_even y \<le> m"
proof -
  have fle: "\<lfloor>y\<rfloor> \<le> m" using assms by (simp add: floor_le_iff)
  show ?thesis
  proof (cases "\<lfloor>y\<rfloor> = m")
    case True
    then have "y - of_int \<lfloor>y\<rfloor> \<le> 0" using assms by simp
    then have "y - of_int \<lfloor>y\<rfloor> < 1 / 2" by linarith
    then show ?thesis using True by (simp add: round_half_even_def Let_def)
  next
    case False
    then have "\<lfloor>y\<rfloor> + 1 \<le> m" using fle by linarith
    then show ?thesis using fle by (simp add: round_half_even_def Let_def)
  qed
qed

lemma round_half_even_ge:
  assumes "of_int m \<le> y"
  shows "m \<le> round_half_even y"
proof -
  have "m \<le> \<lfloor>y\<rfloor>" using assms by (simp add: le_floor_iff)
  then show ?thesis by (simp add: round_half_even_def Let_def)
qed

lemma ulp_positive: "0 < ulp a"
  by (simp add: ulp_def)

lemma fl_nonneg: "0 \<le> x \<Longrightarrow> 0 \<le> fl x"
proof -
  assume x: "0 \<le> x"
  have "0 \<le> round_half_even (\<bar>x\<bar> / ulp \<bar>x\<bar>)"
    using round_half_even_ge [of 0 "\<bar>x\<bar> / ulp \<bar>x\<bar>"] ulp_positive [of "\<bar>x\<bar>"] by simp
  then show ?thesis
    using x ulp_positive [of "\<bar>x\<bar>"] by (simp add: fl_def sgn_if)
qed

lemma fl_nonpos: "x \<le> 0 \<Longrightarrow> fl x \<le> 0"
proof -
  assume x: "x \<le> 0"
  have "0 \<le> round_half_even (\<bar>x\<bar> / ulp \<bar>x\<bar>)"
    using round_half_even_ge [of 0 "\<bar>x\<bar> / ulp \<bar>x\<bar>"] ulp_positive [of "\<bar>x\<bar>"] by simp
  then have "0 \<le> of_int (round_half_even (\<bar>x\<bar> / ulp \<bar>x\<bar>)) * ulp \<bar>x\<bar>"
    using ulp_positive [of "\<bar>x\<bar>"] by simp
  then show ?thesis
    using x by (auto simp: fl_def sgn_if mult.assoc)
qed

lemma ilog2_le_52:
  assumes "0 < x" and "x < 2 ^ 53"
  shows "ilog2 x \<le> 52"
proof (cases "1 \<le> x")
  case True
  have "\<lfloor>x\<rfloor> < 2 ^ 53"
    using assms(2) by (simp add: floor_less_iff)
  then have "bitlen \<lfloor>x\<rfloor> \<le> 53"
    by (simp add: bitlen_le_iff_power)
  then show ?thesis using True by (simp add: ilog2_def)
next
  case False
  have "0 \<le> bitlen (\<lceil>1 / x\<rceil> - 1)" by (rule bitlen_nonneg)
  then show ?thesis using False by (simp add: ilog2_def)
qed

text \<open>A float below \<open>2 ^ 53\<close> never rounds across an integer.\<close>

lemma fl_le_int:
  assumes "0 < x" and "x \<le> of_int n" and "x < 2 ^ 53"
  shows "fl x \<le> of_int n"
proof -
  define k where "k = nat (52 - max (ilog2 x) (- 1022))"
  have e: "max (ilog2 x) (- 1022) \<le> 52"
    using ilog2_le_52 [OF assms(1,3)] by simp
  have u: "ulp x = 1 / 2 ^ k"
    using e by (simp add: ulp_def k_def power_int_def inverse_eq_divide power_one_over)
  have "x * 2 ^ k \<le> of_int (n * 2 ^ k)"
    using assms(2) by simp
  then have "round_half_even (x * 2 ^ k) \<le> n * 2 ^ k"
    by (rule round_half_even_le)
  then have "(of_int (round_half_even (x * 2 ^ k)) :: rat) \<le> of_int (n * 2 ^ k)"
    by (simp only: of_int_le_iff)
  then have "of_int (round_half_even (x * 2 ^ k)) / 2 ^ k \<le> (of_int n :: rat)"
    by (simp add: field_simps)
  then show ?thesis
    using assms(1) by (simp add: fl_def u sgn_if)
qed

lemma fl_le_1: "x \<le> 1 \<Longrightarrow> fl x \<le> 1"
proof (cases "0 < x")
  case True
  assume "x \<le> 1"
  then show ?thesis using fl_le_int [of x 1] True by simp
next
  case False
  then have "fl x \<le> 0" by (simp add: fl_nonpos)
  then show ?thesis by simp
qed

lemma fl_le_100: "x \<le> 100 \<Longrightarrow> fl x \<le> 100"
proof (cases "0 < x")
  case True
  assume "x \<le> 100"
  then show ?thesis using fl_le_int [of x 100] True by simp
next
  case False
  then have "fl x \<le> 0" by (simp add: fl_nonpos)
  then show ?thesis by simp
qed

lemma py_round1_nonneg: "0 \<le> x \<Longrightarrow> 0 \<le> py_round1 x"
proof -
  assume "0 \<le> x"
  then have "0 \<le> round_half_even (x * 10)"
    using round_half_even_ge [of 0 "x * 10"] by simp
  then show ?thesis
    by (simp add: py_round1_def fl_nonneg)
qed

lemma py_round1_le_100: "x \<le> 100 \<Longrightarrow> py_round1 x \<le> 100"
proof -
  assume "x \<le> 100"
  then have "round_half_even (x * 10) \<le> 1000"
    using round_half_even_le [of "x * 10" 1000] by simp
  then have "(of_int (round_half_even (x * 10)) :: rat) \<le> of_int 1000"
    by (simp only: of_int_le_iff)
  then have "(of_int (round_half_even (x * 10)) :: rat) / 10 \<le> 100"
    by simp
  then show ?thesis
    unfolding py_round1_def by (rule fl_le_100)
qed

lemma py_round1_0 [simp]: "py_round1 0 = 0"
  by (simp add: py_round1_def round_half_even_def fl_def)

section \<open>The loop of the analyzer\<close>

lemma count_hour_counters [simp]:
  "break_count (count_hour fromiso ts c) = break_count c"
  "break_completed_count (count_hour fromiso ts c) = break_completed_count c"
  "deep_work_sessions_acc (count_hour fromiso ts c) = deep_work_sessions_acc c"
  "commands_used_acc (count_hour fromiso ts c) = commands_used_acc c"
  "pause_events_acc (count_hour fromiso ts c) = pause_events_acc c"
  "reschedule_count_acc (count_hour fromiso ts c) = reschedule_count_acc c"
  "break_types_acc (count_hour fromiso ts c) = break_types_acc c"
  by (simp_all add: count_hour_def split: option.split)

lemma count_hour_histogram:
  "hourly_activity_acc (count_hour fromiso ts c) =
     (case parse_hour fromiso ts of
        None \<Rightarrow> hourly_activity_acc c
      | Some h \<Rightarrow> dict_incr h (hourly_activity_acc c))"
  by (simp add: count_hour_def split: option.split)

lemma count_event_counters:
  assumes "count_event ty data c = Inr c'"
  shows "break_count c' = break_count c + (if ty = JString ''break_shown'' then 1 else 0)"
    and "break_completed_count c' =
           break_completed_count c + (if ty = JString ''break_completed'' then 1 else 0)"
    and "commands_used_acc c' =
           commands_used_acc c + (if ty = JString ''command_received'' then 1 else 0)"
    and "pause_events_acc c' =
           pause_events_acc c + (if ty = JString ''pause_toggled'' then 1 else 0)"
    and "reschedule_count_acc c' =
           reschedule_count_acc c + (if ty = JString ''break_rescheduled'' then 1 else 0)"
    and "hourly_activity_acc c' = hourly_activity_acc c"
  using assms by (auto simp: count_event_def split: if_splits sum.splits)

lemma process_activity_step:
  assumes "process_activity fromiso c x = Inr c'"
  shows "break_count c' = break_count c + count_type ''break_shown'' [x]"
    and "break_completed_count c' = break_completed_count c + count_type ''break_completed'' [x]"
    and "commands_used_acc c' = commands_used_acc c + count_type ''command_received'' [x]"
    and "pause_events_acc c' = pause_events_acc c + count_type ''pause_toggled'' [x]"
    and "reschedule_count_acc c' = reschedule_count_acc c + count_type ''break_rescheduled'' [x]"
    and "hourly_activity_acc c' =
           (case event_hour fromiso x of
              None \<Rightarrow> hourly_activity_acc c
            | Some h \<Rightarrow> dict_incr h (hourly_activity_acc c))"
proof -
  obtain d where x: "x = JObject d"
    using assms by (cases x) (simp_all add: process_activity_def)
  let ?ty = "dict_get d ''event_type'' (JString '''')"
  let ?c1 = "count_hour fromiso (dict_get d ''timestamp'' (JString '''')) c"
  have ev: "count_event ?ty (dict_get d ''event_data'' (JObject [])) ?c1 = Inr c'"
    using assms by (simp add: x process_activity_def Let_def)
  have ty: "count_type t [x] = (if ?ty = JString t then 1 else 0)" for t
    by (simp add: count_type_def event_type_of_def x)
  show "break_count c' = break_count c + count_type ''break_shown'' [x]"
    using count_event_counters(1) [OF ev] by (simp add: ty)
  show "break_completed_count c' = break_completed_count c + count_type ''break_completed'' [x]"
    using count_event_counters(2) [OF ev] by (simp add: ty)
  show "commands_used_acc c' = commands_used_acc c + count_type ''command_received'' [x]"
    using count_event_counters(3) [OF ev] by (simp add: ty)
  show "pause_events_acc c' = pause_events_acc c + count_type ''pause_toggled'' [x]"
    using count_event_counters(4) [OF ev] by (simp add: ty)
  show "reschedule_count_acc c' = reschedule_count_acc c + count_type ''break_rescheduled'' [x]"
    using count_event_counters(5) [OF ev] by (simp add: ty)
  show "hourly_activity_acc c' =
          (case event_hour fromiso x of
             None \<Rightarrow> hourly_activity_acc c
           | Some h \<Rightarrow> dict_incr h (hourly_activity_acc c))"
    using count_event_counters(6) [OF ev]
    by (simp add: count_hour_histogram event_hour_def x)
qed

lemma count_type_Cons: "count_type t (x # xs) = count_type t [x] + count_type t xs"
  by (simp add: count_type_def)

lemma process_all_counters:
  assumes "process_all fromiso c xs = Inr c'"
  shows "break_count c' = break_count c + count_type ''break_shown'' xs
       \<and> break_completed_count c' = break_completed_count c + count_type ''break_completed'' xs
       \<and> commands_used_acc c' = commands_used_acc c + count_type ''command_received'' xs
       \<and> pause_events_acc c' = pause_events_acc c + count_type ''pause_toggled'' xs
       \<and> reschedule_count_acc c' = reschedule_count_acc c + count_type ''break_rescheduled'' xs"
  using assms
proof (induction xs arbitrary: c)
  case Nil
  then show ?case by (simp add: count_type_def)
next
  case (Cons x xs)
  from Cons.prems obtain c1 where
    step: "process_activity fromiso c x = Inr c1" and rest: "process_all fromiso c1 xs = Inr c'"
    by (auto split: sum.splits)
  show ?case
    using Cons.IH [OF rest] process_activity_step(1-5) [OF step]
    by (simp add: count_type_Cons [of _ x xs])
qed

section \<open>The two returns of the analyzer\<close>

lemma analyze_cases:
  assumes "analyze_daily_patterns fromiso activities = Inr a"
  obtains (empty) "activities = []" "a = empty_analysis"
  | (counted) w c where "activities \<noteq> []" "final_work_minutes_of (last activities) = Inr w"
      "process_all fromiso init_counters activities = Inr c" "a = build_analysis w c"
  using assms
  by (auto simp: analyze_daily_patterns_def split: if_splits sum.splits)

lemma init_counters_fields [simp]:
  "break_count init_counters = 0"
  "break_completed_count init_counters = 0"
  "deep_work_sessions_acc init_counters = 0"
  "commands_used_acc init_counters = 0"
  "pause_events_acc init_counters = 0"
  "reschedule_count_acc init_counters = 0"
  "hourly_activity_acc init_counters = []"
  "break_types_acc init_counters = [(''eye_care'', 0), (''custom_message'', 0)]"
  by (simp_all add: init_counters_def)

lemma count_type_Nil [simp]: "count_type t [] = 0"
  by (simp add: count_type_def)

lemma get_or_0_simps [simp]: "get_or_0 None = 0" "get_or_0 (Some n) = n"
  by (simp_all add: get_or_0_def)

lemma compliance_rate_nonneg: "0 \<le> compliance_rate c"
  by (simp add: compliance_rate_def fl_nonneg)

lemma compliance_rate_le_100:
  assumes "break_completed_count c \<le> break_count c"
  shows "compliance_rate c \<le> 100"
proof (cases "break_count c = 0")
  case True
  then show ?thesis by (simp add: compliance_rate_def)
next
  case False
  have "(of_nat (break_completed_count c) :: rat) \<le> of_nat (break_count c)"
    using assms by (simp only: of_nat_le_iff)
  then have "(of_nat (break_completed_count c) :: rat) / of_nat (break_count c) \<le> 1"
    using False by (simp add: divide_le_eq_1)
  then have "fl (of_nat (break_completed_count c) / of_nat (break_count c)) \<le> 1"
    by (rule fl_le_1)
  then have "fl (of_nat (break_completed_count c) / of_nat (break_count c)) * 100 \<le> 1 * 100"
    by (rule mult_right_mono) simp
  then have "fl (fl (of_nat (break_completed_count c) / of_nat (break_count c)) * 100) \<le> 100"
    by (intro fl_le_100) simp
  then show ?thesis using False by (simp add: compliance_rate_def)
qed

section \<open>Well-formed records raise nothing\<close>

lemma process_activity_well_formed:
  assumes "well_formed_event x"
  shows "\<exists>c'. process_activity fromiso c x = Inr c'"
proof -
  obtain d where x: "x = JObject d"
    using assms by (cases x) (simp_all add: well_formed_event_def)
  have data: "case map_of d ''event_data'' of
      None \<Rightarrow> True
    | Some (JObject ed) \<Rightarrow> absent_or is_scalar (map_of ed ''break_type'')
    | Some _ \<Rightarrow> False"
    using assms by (simp add: well_formed_event_def x)
  obtain ed where ed: "dict_get d ''event_data'' (JObject []) = JObject ed"
    "absent_or is_scalar (map_of ed ''break_type'')"
    using data by (auto simp: dict_get_def absent_or_def split: option.splits json.splits)
  have scalar: "is_scalar (dict_get ed ''break_type'' (JString ''unknown''))"
    using ed(2) by (auto simp: dict_get_def absent_or_def is_scalar_def split: option.splits)
  have "\<exists>bt'. count_break_type (dict_get ed ''break_type'' (JString ''unknown'')) bt = Inr bt'" for bt
    using scalar by (auto simp: count_break_type_def is_scalar_def split: json.splits)
  then have "\<exists>c'. count_event ty (JObject ed) c1 = Inr c'" for ty c1
    by (simp add: count_event_def py_get_def split: sum.splits) (metis sum.exhaust sum.simps(4))
  then show ?thesis
    by (simp add: x process_activity_def Let_def ed(1))
qed

lemma process_all_well_formed:
  assumes "\<forall>x \<in> set xs. well_formed_event x"
  shows "\<exists>c'. process_all fromiso c xs = Inr c'"
  using assms
proof (induction xs arbitrary: c)
  case Nil
  then show ?case by simp
next
  case (Cons x xs)
  obtain c1 where "process_activity fromiso c x = Inr c1"
    using process_activity_well_formed [of x fromiso c] Cons.prems by auto
  then show ?case
    using Cons.IH [of c1] Cons.prems by simp
qed

lemma final_work_minutes_well_formed:
  assumes "well_formed_event x"
  shows "\<exists>w. final_work_minutes_of x = Inr w"
  using assms
  by (auto simp: well_formed_event_def final_work_minutes_of_def absent_or_def is_dict_def
      py_get_def split: json.splits option.splits)

lemma analyze_well_formed:
  assumes "\<forall>x \<in> set activities. well_formed_event x"
  shows "\<exists>a. analyze_daily_patterns fromiso activities = Inr a"
proof (cases "activities = []")
  case True
  then show ?thesis by (simp add: analyze_daily_patterns_def)
next
  case False
  then have "well_formed_event (last activities)"
    using assms by simp
  then obtain w where "final_work_minutes_of (last activities) = Inr w"
    using final_work_minutes_well_formed by blast
  moreover obtain c where "process_all fromiso init_counters activities = Inr c"
    using process_all_well_formed [OF assms] by blast
  ultimately show ?thesis
    using False by (simp add: analyze_daily_patterns_def)
qed

section \<open>The sample days, evaluated\<close>

lemma analyze_compliant_day:
  "analyze_daily_patterns sample_fromisoformat compliant_day = Inr compliant_analysis"
  by code_simp

lemma analyze_over_completed_day:
  "analyze_daily_patterns sample_fromisoformat over_completed_day = Inr over_completed_analysis"
  by code_simp

lemma compliant_day_well_formed: "\<forall>x \<in> set compliant_day. well_formed_event x"
  by code_simp

section \<open>The histogram of hours\<close>

lemma dict_incr_keys:
  "map fst (dict_incr k d) = (if k \<in> set (map fst d) then map fst d else map fst d @ [k])"
proof (induction d)
  case Nil
  then show ?case by simp
next
  case (Cons x d)
  obtain k' v where x: "x = (k', v)" by (cases x)
  show ?case
    using Cons.IH by (cases "k = k'") (auto simp: x)
qed

lemma dict_incr_lookup:
  "map_of (dict_incr k d) k' =
     (if k' = k then Some (case map_of d k of None \<Rightarrow> 1 | Some v \<Rightarrow> v + 1) else map_of d k')"
  by (induction d) auto

lemma dict_incr_positive:
  "\<forall>x \<in> set d. 0 < snd x \<Longrightarrow> \<forall>x \<in> set (dict_incr k d). 0 < snd x"
  by (induction d) (fastforce split: if_splits)+

lemma tally_keys:
  "map fst (fold dict_incr hs d)
     = map fst d @ filter (\<lambda>h. h \<notin> set (map fst d)) (first_seen hs)"
proof (induction hs arbitrary: d)
  case Nil
  then show ?case by simp
next
  case (Cons x hs)
  have rm: "filter P (removeAll x ys) = filter (\<lambda>h. P h \<and> h \<noteq> x) ys" for P and ys :: "'a list"
    by (induction ys) auto
  show ?case
  proof (cases "x \<in> set (map fst d)")
    case True
    then have "filter (\<lambda>h. h \<notin> set (map fst d) \<and> h \<noteq> x) ys
        = filter (\<lambda>h. h \<notin> set (map fst d)) ys" for ys
      by (intro filter_cong) auto
    then show ?thesis
      using True by (simp add: Cons.IH dict_incr_keys rm)
  next
    case False
    then show ?thesis
      by (simp add: Cons.IH dict_incr_keys rm conj_commute)
  qed
qed

lemma tally_lookup:
  "map_of (fold dict_incr hs d) k
     = (if count_list hs k = 0 then map_of d k
        else Some ((case map_of d k of None \<Rightarrow> 0 | Some v \<Rightarrow> v) + count_list hs k))"
proof (induction hs arbitrary: d)
  case Nil
  then show ?case by simp
next
  case (Cons x hs)
  show ?case
    by (simp add: Cons.IH dict_incr_lookup split: option.split)
qed

lemma tally_positive:
  "\<forall>x \<in> set d. 0 < snd x \<Longrightarrow> \<forall>x \<in> set (fold dict_incr hs d). 0 < snd x"
proof (induction hs arbitrary: d)
  case Nil
  then show ?case by simp
next
  case (Cons x hs)
  show ?case
    using Cons.IH [OF dict_incr_positive [OF Cons.prems]] by simp
qed

lemma distinct_first_seen: "distinct (first_seen xs)"
  by (induction xs) (auto simp: distinct_removeAll)

lemma set_first_seen [simp]: "set (first_seen xs) = set xs"
  by (induction xs) auto

lemma first_seen_Nil_iff [simp]: "(first_seen xs = []) = (xs = [])"
  by (cases xs) simp_all

lemma tally_from_empty:
  "fold dict_incr hs [] = map (\<lambda>h. (h, count_list hs h)) (first_seen hs)"
proof -
  let ?t = "fold dict_incr hs []"
  have keys: "map fst ?t = first_seen hs"
    using tally_keys [of hs "[]"] by simp
  have "snd x = count_list hs (fst x)" if "x \<in> set ?t" for x
  proof -
    have "distinct (map fst ?t)" by (simp add: keys distinct_first_seen)
    then have "map_of ?t (fst x) = Some (snd x)" using that by simp
    moreover have "fst x \<in> set hs"
      using that keys by (metis image_eqI list.set_map set_first_seen)
    then have "count_list hs (fst x) \<noteq> 0" by (simp add: count_list_0_iff)
    ultimately show ?thesis by (simp add: tally_lookup)
  qed
  then have "map (\<lambda>x. (fst x, snd x)) ?t = map (\<lambda>x. (fst x, count_list hs (fst x))) ?t"
    by (intro map_cong) simp_all
  then have "?t = map (\<lambda>h. (h, count_list hs h)) (map fst ?t)"
    by (simp add: comp_def)
  then show ?thesis by (simp only: keys)
qed

lemma process_all_histogram:
  assumes "process_all fromiso c xs = Inr c'"
  shows "hourly_activity_acc c' = fold dict_incr (event_hours fromiso xs) (hourly_activity_acc c)"
  using assms
proof (induction xs arbitrary: c)
  case Nil
  then show ?case by (simp add: event_hours_def)
next
  case (Cons x xs)
  from Cons.prems obtain c1 where
    step: "process_activity fromiso c x = Inr c1" and rest: "process_all fromiso c1 xs = Inr c'"
    by (auto split: sum.splits)
  show ?case
    using Cons.IH [OF rest] process_activity_step(6) [OF step]
    by (simp add: event_hours_def split: option.splits)
qed

lemma analysis_histogram:
  assumes "analyze_daily_patterns fromiso activities = Inr a"
  shows "hourly_activity a
           = map (\<lambda>h. (h, count_list (event_hours fromiso activities) h))
                 (first_seen (event_hours fromiso activities))"
  using assms
proof (cases rule: analyze_cases)
  case empty
  then show ?thesis by (simp add: empty_analysis_def event_hours_def)
next
  case (counted w c)
  have "hourly_activity a = hourly_activity_acc c"
    by (simp add: counted(4) build_analysis_def)
  then show ?thesis
    using process_all_histogram [OF counted(3)] by (simp add: tally_from_empty)
qed

section \<open>The log reader\<close>

lemma read_lines_activities: "fst (read_lines loads lines) = decoded_records loads lines"
proof (induction lines)
  case Nil
  then show ?case by (simp add: decoded_records_def)
next
  case (Cons l ls)
  show ?case
  proof (cases "loads (strip l)")
    case (Inl e)
    then show ?thesis
      using Cons.IH by (auto simp: decoded_records_def decodes_def Let_def split: prod.splits)
  next
    case (Inr v)
    then show ?thesis
      using Cons.IH by (auto simp: decoded_records_def decodes_def Let_def split: prod.splits)
  qed
qed

lemma read_lines_warnings:
  "length (snd (read_lines loads lines)) = length (filter (rejected loads) lines)"
proof (induction lines)
  case Nil
  then show ?case by simp
next
  case (Cons l ls)
  show ?case
  proof (cases "loads (strip l)")
    case (Inl e)
    then show ?thesis
      using Cons.IH by (auto simp: rejected_def Let_def split: prod.splits)
  next
    case (Inr v)
    then show ?thesis
      using Cons.IH by (auto simp: rejected_def Let_def split: prod.splits)
  qed
qed

lemma load_daily_activities_records:
  "fst (load_daily_activities loads fs date_str) = decoded_records loads (log_lines fs date_str)"
proof (cases "fs (get_log_file_path date_str)")
  case Missing
  then show ?thesis
    by (simp add: load_daily_activities_def log_lines_def decoded_records_def)
next
  case (Content lines io_error)
  then show ?thesis
    using read_lines_activities [of loads lines]
    by (auto simp: load_daily_activities_def log_lines_def Let_def split: prod.splits)
next
  case Undecodable
  then show ?thesis
    by (simp add: load_daily_activities_def log_lines_def decoded_records_def)
qed

lemma generate_daily_summary_cases:
  assumes "generate_daily_summary loads fromiso now fs date_str = Inr s"
  obtains a d where
    "analyze_daily_patterns fromiso (fst (load_daily_activities loads fs date_str)) = Inr a"
    "active_duration fromiso (fst (load_daily_activities loads fs date_str)) = Inr d"
    "s = \<lparr>date = date_str,
          total_activities = length (fst (load_daily_activities loads fs date_str)),
          active_duration_hours = py_round1 d, analysis = a,
          raw_activities = fst (load_daily_activities loads fs date_str),
          generated_at = now\<rparr>"
  using assms
  by (auto simp: generate_daily_summary_def Let_def split: option.splits sum.splits)

lemma sample_summary_generated:
  "generate_daily_summary sample_loads sample_fromisoformat ''2024-01-02T08:00:00''
     (sample_fs sample_log) sample_date = Inr sample_summary"
  by code_simp

section \<open>Break compliance\<close>

lemma analyze_day_23_of_80:
  "map_sum id break_compliance (analyze_daily_patterns sample_fromisoformat day_23_of_80)
     = Inr (fl (287 / 10))"
  by code_simp

lemma day_23_of_80_counts:
  "count_type ''break_shown'' day_23_of_80 = 80
   \<and> count_type ''break_completed'' day_23_of_80 = 23"
  by code_simp

lemma exact_23_of_80: "py_round1 (100 * 23 / 80) = fl (288 / 10) \<and> fl (287 / 10) \<noteq> fl (288 / 10)"
  by code_simp

text \<open>
  C1 (as amended). On a sequence of well-formed records the analyzer returns. Whenever it
  returns, \<open>total_breaks\<close> and \<open>breaks_completed\<close> are the numbers of \<^verbatim>\<open>break_shown\<close> and
  \<^verbatim>\<open>break_completed\<close> events, and \<open>break_compliance\<close> is 0 when \<open>total_breaks\<close> is 0 and
  otherwise \<^verbatim>\<open>round(breaks_completed / total_breaks * 100, 1)\<close> as floating point
  arithmetic computes it: the quotient rounded to a float, its product with 100 rounded
  again, and the result rounded to one decimal. It is never negative. It is at most 100 when
  no more breaks were completed than shown; nothing bounds it otherwise.
\<close>

theorem break_compliance_formula:
  "((\<forall>x \<in> set activities. well_formed_event x) \<longrightarrow>
      (\<exists>a. analyze_daily_patterns fromiso activities = Inr a))
   \<and> (\<forall>a. analyze_daily_patterns fromiso activities = Inr a \<longrightarrow>
          total_breaks a = count_type ''break_shown'' activities
        \<and> get_or_0 (breaks_completed a) = count_type ''break_completed'' activities
        \<and> break_compliance a =
            (if total_breaks a = 0 then 0
             else py_round1 (fl (fl (of_nat (get_or_0 (breaks_completed a))
                                       / of_nat (total_breaks a)) * 100)))
        \<and> 0 \<le> break_compliance a
        \<and> (get_or_0 (breaks_completed a) \<le> total_breaks a \<longrightarrow> break_compliance a \<le> 100))"
proof (intro conjI impI allI)
  assume "\<forall>x \<in> set activities. well_formed_event x"
  then show "\<exists>a. analyze_daily_patterns fromiso activities = Inr a"
    by (rule analyze_well_formed)
next
  fix a
  assume returned: "analyze_daily_patterns fromiso activities = Inr a"
  have facts: "total_breaks a = count_type ''break_shown'' activities
      \<and> get_or_0 (breaks_completed a) = count_type ''break_completed'' activities
      \<and> break_compliance a =
          (if total_breaks a = 0 then 0
           else py_round1 (fl (fl (of_nat (get_or_0 (breaks_completed a))
                                     / of_nat (total_breaks a)) * 100)))
      \<and> 0 \<le> break_compliance a
      \<and> (get_or_0 (breaks_completed a) \<le> total_breaks a \<longrightarrow> break_compliance a \<le> 100)"
    using returned
  proof (cases rule: analyze_cases)
    case empty
    then show ?thesis by (simp add: empty_analysis_def)
  next
    case (counted w c)
    have cnt: "break_count c = count_type ''break_shown'' activities"
      "break_completed_count c = count_type ''break_completed'' activities"
      using process_all_counters [OF counted(3)] by simp_all
    have fields: "total_breaks a = break_count c"
      "breaks_completed a = Some (break_completed_count c)"
      "break_compliance a = py_round1 (compliance_rate c)"
      by (simp_all add: counted(4) build_analysis_def)
    have formula: "compliance_rate c =
        (if break_count c = 0 then 0
         else fl (fl (of_nat (break_completed_count c) / of_nat (break_count c)) * 100))"
      by (simp add: compliance_rate_def)
    have "0 \<le> py_round1 (compliance_rate c)"
      by (rule py_round1_nonneg [OF compliance_rate_nonneg])
    moreover have "py_round1 (compliance_rate c) \<le> 100"
      if "break_completed_count c \<le> break_count c"
      by (rule py_round1_le_100 [OF compliance_rate_le_100 [OF that]])
    ultimately show ?thesis
      using cnt by (simp add: fields formula)
  qed
  show "total_breaks a = count_type ''break_shown'' activities" using facts by simp
  show "get_or_0 (breaks_completed a) = count_type ''break_completed'' activities"
    using facts by simp
  show "break_compliance a =
      (if total_breaks a = 0 then 0
       else py_round1 (fl (fl (of_nat (get_or_0 (breaks_completed a))
                                 / of_nat (total_breaks a)) * 100)))"
    using facts by (elim conjE)
  show "0 \<le> break_compliance a" using facts by (elim conjE)
  assume "get_or_0 (breaks_completed a) \<le> total_breaks a"
  then show "break_compliance a \<le> 100" using facts by (elim conjE) simp
qed

theorem break_compliance_formula_witness:
  "well_formed_event shown_at_9 \<and> well_formed_event completed_at_10
   \<and> analyze_daily_patterns sample_fromisoformat compliant_day = Inr compliant_analysis
   \<and> total_breaks compliant_analysis = count_type ''break_shown'' compliant_day
   \<and> get_or_0 (breaks_completed compliant_analysis) = count_type ''break_completed'' compliant_day
   \<and> get_or_0 (breaks_completed compliant_analysis) \<le> total_breaks compliant_analysis
   \<and> 0 \<le> break_compliance compliant_analysis
   \<and> break_compliance compliant_analysis \<le> 100"
proof -
  note rule = break_compliance_formula [of compliant_day sample_fromisoformat]
  have facts: "total_breaks compliant_analysis = count_type ''break_shown'' compliant_day
      \<and> get_or_0 (breaks_completed compliant_analysis)
          = count_type ''break_completed'' compliant_day
      \<and> 0 \<le> break_compliance compliant_analysis
      \<and> (get_or_0 (breaks_completed compliant_analysis) \<le> total_breaks compliant_analysis
           \<longrightarrow> break_compliance compliant_analysis \<le> 100)"
    using rule analyze_compliant_day by blast
  have le: "get_or_0 (breaks_completed compliant_analysis) \<le> total_breaks compliant_analysis"
    by (simp add: compliant_analysis_def)
  have "well_formed_event shown_at_9 \<and> well_formed_event completed_at_10"
    using compliant_day_well_formed by (simp add: compliant_day_def)
  then show ?thesis
    using analyze_compliant_day facts le by blast
qed

text \<open>
  C1 as stated fails. A day with one \<^verbatim>\<open>break_shown\<close> and two \<^verbatim>\<open>break_completed\<close> events
  has a compliance of 200, outside [0,100]. And on a day with 80 breaks shown and 23
  completed the analyzer gives the float 28.7, where \<^verbatim>\<open>round(100 * 23 / 80, 1)\<close> is 28.8.
\<close>

theorem break_compliance_above_100:
  "analyze_daily_patterns sample_fromisoformat over_completed_day = Inr over_completed_analysis
   \<and> total_breaks over_completed_analysis = 1
   \<and> breaks_completed over_completed_analysis = Some 2
   \<and> break_compliance over_completed_analysis = 200
   \<and> \<not> break_compliance over_completed_analysis \<le> 100
   \<and> count_type ''break_shown'' day_23_of_80 = 80
   \<and> count_type ''break_completed'' day_23_of_80 = 23
   \<and> map_sum id break_compliance (analyze_daily_patterns sample_fromisoformat day_23_of_80)
       = Inr (fl (287 / 10))
   \<and> py_round1 (100 * 23 / 80) = fl (288 / 10)
   \<and> fl (287 / 10) \<noteq> fl (288 / 10)"
  using analyze_over_completed_day analyze_day_23_of_80 day_23_of_80_counts exact_23_of_80
  by (simp add: over_completed_analysis_def)

section \<open>The empty day\<close>

text \<open>
  C3. For the empty event sequence the analyzer returns the dict of lines 59 to 69: its
  counters \<open>total_breaks\<close>, \<open>total_work_minutes\<close>, \<open>deep_work_sessions\<close>, \<open>commands_used\<close>
  and \<open>pause_events\<close> are 0, \<open>break_compliance\<close> is 0, both maps and the insight list are
  empty, but the keys \<open>breaks_completed\<close> and \<open>reschedule_count\<close> are absent, unlike in the
  return for a non-empty sequence; \<open>prepare_ai_summary_data\<close>, which reads them with
  \<^verbatim>\<open>[...]\<close>, raises \<^verbatim>\<open>KeyError\<close> on a day without a log.
\<close>

theorem empty_day_analysis:
  "analyze_daily_patterns fromiso [] = Inr empty_analysis
   \<and> total_breaks empty_analysis = 0
   \<and> total_work_minutes empty_analysis = JInt 0
   \<and> deep_work_sessions empty_analysis = 0
   \<and> commands_used empty_analysis = 0
   \<and> pause_events empty_analysis = 0
   \<and> break_compliance empty_analysis = 0
   \<and> break_types empty_analysis = []
   \<and> hourly_activity empty_analysis = []
   \<and> insights empty_analysis = []
   \<and> breaks_completed empty_analysis = None
   \<and> reschedule_count empty_analysis = None
   \<and> prepare_ai_summary_data loads fromiso now (\<lambda>path. Missing) date_str = Inl KeyError"
  by (simp add: analyze_daily_patterns_def empty_analysis_def prepare_ai_summary_data_def
      generate_daily_summary_def load_daily_activities_def load_fault_def active_duration_def
      project_ai_data_def Let_def)

section \<open>Scores\<close>

text \<open>
  C2. The scores are meant to lie in [0,100] (the comment of line 58), and \<open>work_score\<close> and
  \<open>focus_score\<close> are cut at 100, but \<open>break_score\<close> is the analysis's \<open>break_compliance\<close>
  unchanged: on the day with one break shown and two completed, where the work minutes and
  the deep work sessions are 0, the break score is 200, before and after the rounding for
  publication, and the overall score is the mean of 0, 200 and 0.
\<close>

theorem break_score_above_100:
  "analyze_daily_patterns sample_fromisoformat over_completed_day = Inr over_completed_analysis
   \<and> total_work_minutes over_completed_analysis = JInt 0
   \<and> deep_work_sessions over_completed_analysis = 0
   \<and> compute_scores over_completed_analysis =
       Inr \<lparr>work_score = Finite 0, break_score = Finite 200, focus_score = Finite 0,
            overall_score = Finite (fl (200 / 3))\<rparr>
   \<and> map_sum id (break_score \<circ> published_scores) (compute_scores over_completed_analysis)
       = Inr (Finite 200)"
  by code_simp

section \<open>The reschedule warning\<close>

lemma analyze_rescheduled_day:
  "analyze_daily_patterns sample_fromisoformat rescheduled_day = Inr rescheduled_analysis"
  by code_simp

lemma reschedule_rule_arith:
  "((of_nat b :: rat) * (3 / 10) < of_nat r) = (3 * b < 10 * r)"
proof -
  have "((of_nat b :: rat) * (3 / 10) < of_nat r) = ((of_nat (3 * b) :: rat) < of_nat (10 * r))"
    by (simp add: field_simps)
  also have "\<dots> = (3 * b < 10 * r)"
    by (simp only: of_nat_less_iff)
  finally show ?thesis .
qed

lemma reschedule_warning_in_insights:
  "(reschedule_warning \<in> set (generate_insights c))
     = (3 * break_count c < 10 * reschedule_count_acc c)"
proof -
  have others: "reschedule_warning \<noteq>
      ''Low break compliance detected - consider adjusting break duration or frequency''"
    "reschedule_warning \<noteq> ''Excellent break compliance! You're taking good care of your eyes''"
    "reschedule_warning \<noteq> ''Used '' @ u"
    "reschedule_warning \<noteq>
      ''Multiple pause/resume events - consider if current settings match your workflow''"
    "reschedule_warning \<noteq>
      ''Active user of voice commands - you're making the most of Restly's features!''"
    "reschedule_warning \<noteq> ''Most active hours: '' @ v" for u v
    by (simp_all add: reschedule_warning_def)
  have rule: "(reschedule_warning \<in> set (generate_insights c))
      = ((of_nat (break_count c) :: rat) * (3 / 10) < of_nat (reschedule_count_acc c))"
    unfolding generate_insights_def Let_def set_append
    using others by (auto simp: reschedule_warning_def [symmetric])
  show ?thesis
    unfolding rule by (rule reschedule_rule_arith)
qed

text \<open>
  C6 (as amended). Insight rule 4 fires exactly when the sequence is not empty and
  \<open>reschedule_count > 0.3 * total_breaks\<close>, the counts being the numbers of
  \<^verbatim>\<open>break_rescheduled\<close> and \<^verbatim>\<open>break_shown\<close> events. The condition is not vacuous when
  \<open>total_breaks\<close> is 0: on a sequence without \<^verbatim>\<open>break_shown\<close> events the warning is emitted
  exactly when there is at least one \<^verbatim>\<open>break_rescheduled\<close> event.
\<close>

theorem reschedule_warning_rule:
  assumes "analyze_daily_patterns fromiso activities = Inr a"
  shows "((reschedule_warning \<in> set (insights a))
           = (3 * count_type ''break_shown'' activities
                < 10 * count_type ''break_rescheduled'' activities))
       \<and> (count_type ''break_shown'' activities = 0 \<longrightarrow>
            (reschedule_warning \<in> set (insights a))
              = (0 < count_type ''break_rescheduled'' activities))"
  using assms
proof (cases rule: analyze_cases)
  case empty
  then show ?thesis by (simp add: empty_analysis_def)
next
  case (counted w c)
  have "break_count c = count_type ''break_shown'' activities"
    "reschedule_count_acc c = count_type ''break_rescheduled'' activities"
    using process_all_counters [OF counted(3)] by simp_all
  moreover have "insights a = generate_insights c"
    by (simp add: counted(4) build_analysis_def)
  ultimately show ?thesis
    by (simp add: reschedule_warning_in_insights)
qed

theorem reschedule_warning_rule_witness:
  "analyze_daily_patterns sample_fromisoformat compliant_day = Inr compliant_analysis
   \<and> reschedule_warning \<notin> set (insights compliant_analysis)
   \<and> \<not> 3 * count_type ''break_shown'' compliant_day
         < 10 * count_type ''break_rescheduled'' compliant_day"
  using reschedule_warning_rule [OF analyze_compliant_day] analyze_compliant_day
  by (simp add: compliant_analysis_def reschedule_warning_def)

text \<open>
  C6 as stated fails: a day with one \<^verbatim>\<open>break_rescheduled\<close> event and no \<^verbatim>\<open>break_shown\<close>
  event gets the warning.
\<close>

theorem reschedule_warning_without_breaks:
  "analyze_daily_patterns sample_fromisoformat rescheduled_day = Inr rescheduled_analysis
   \<and> count_type ''break_shown'' rescheduled_day = 0
   \<and> total_breaks rescheduled_analysis = 0
   \<and> reschedule_warning \<in> set (insights rescheduled_analysis)"
  using analyze_rescheduled_day
  by (simp add: rescheduled_analysis_def reschedule_warning_def rescheduled_day_def
      rescheduled_at_10_def event_def count_type_def event_type_of_def dict_get_def)

section \<open>The hourly chart of the dashboard\<close>

lemma hourly_data_of_hours: "map hour (hourly_data_of hist) = [0..<24]"
  by (simp add: hourly_data_of_def Let_def comp_def)

lemma hourly_data_of_nth:
  assumes "h < 24"
  shows "hourly_data_of hist ! h =
           \<lparr>hour = h,
            activity_count =
              count_at (if hist = [] \<or> sum_list (map snd hist) = 0 then sample_hours else hist) h,
            label = fmt_02d h @ '':00''\<rparr>"
proof -
  have "[0..<24] ! h = h" "h < length [0..<24]"
    using assms by simp_all
  then show ?thesis
    unfolding hourly_data_of_def Let_def count_at_def by (simp only: nth_map)
qed

lemma histogram_count_at:
  "count_at (map (\<lambda>h. (h, count_list hs h)) (first_seen hs)) h = count_list hs h"
proof -
  have "map_of (map (\<lambda>h. (h, count_list hs h)) (first_seen hs)) h
          = (if h \<in> set hs then Some (count_list hs h) else None)"
    by (simp add: map_of_map_restrict restrict_map_def)
  then show ?thesis
    by (simp add: count_at_def count_list_0_iff)
qed

lemma histogram_sum_zero:
  "(sum_list (map snd (map (\<lambda>h. (h, count_list hs h)) (first_seen hs))) = 0) = (hs = [])"
proof (cases hs)
  case Nil
  then show ?thesis by simp
next
  case (Cons x xs)
  have "0 < count_list hs x" using Cons by simp
  moreover have "x \<in> set (first_seen hs)" using Cons by simp
  ultimately have "\<exists>h \<in> set (first_seen hs). count_list hs h \<noteq> 0" by auto
  then show ?thesis using Cons by (auto simp: comp_def)
qed

lemma get_dashboard_data_cases:
  assumes "get_dashboard_data loads fromiso now ai_summary fs date_str = Inr doc"
  obtains a s where
    "analyze_daily_patterns fromiso (fst (load_daily_activities loads fs date_str)) = Inr a"
    "compute_scores a = Inr s"
    "db_hourly_activity doc = hourly_data_of (hourly_activity a)"
    "db_break_types doc = break_types a"
    "db_preferred doc = preferred_break_type_of (break_types a)"
  using assms
  by (auto simp: get_dashboard_data_def db_preferred_def Let_def split: option.splits sum.splits)

text \<open>
  C5 (as amended). The \<open>hourly_activity\<close> field of the dashboard document lists the hours
  0 to 23 once each, in order, with the labels \<^verbatim>\<open>HH:00\<close>. When at least one event of the day
  has a timestamp that parses, the count of an hour is the number of such events in that
  hour, 0 for an hour without events. When no event has one (in particular on a day with no
  events at all), the counts are those of the fixed sample histogram of line 85, 0 for the
  hours it does not list.
\<close>

theorem dashboard_hourly_activity:
  assumes "get_dashboard_data loads fromiso now ai_summary fs date_str = Inr doc"
  shows "map hour (db_hourly_activity doc) = [0..<24]
       \<and> (\<forall>h < 24. label (db_hourly_activity doc ! h) = fmt_02d h @ '':00''
            \<and> activity_count (db_hourly_activity doc ! h) =
                (if event_hours fromiso (fst (load_daily_activities loads fs date_str)) = []
                 then count_at sample_hours h
                 else count_list
                        (event_hours fromiso (fst (load_daily_activities loads fs date_str))) h))"
  using assms
proof (cases rule: get_dashboard_data_cases)
  case (1 a s)
  let ?hs = "event_hours fromiso (fst (load_daily_activities loads fs date_str))"
  have hist: "hourly_activity a = map (\<lambda>h. (h, count_list ?hs h)) (first_seen ?hs)"
    by (rule analysis_histogram [OF 1(1)])
  have empty: "(hourly_activity a = []) = (?hs = [])"
    by (simp add: hist)
  have zero: "(sum_list (map snd (hourly_activity a)) = 0) = (?hs = [])"
    unfolding hist by (rule histogram_sum_zero)
  have count: "count_at (hourly_activity a) h = count_list ?hs h" for h
    unfolding hist by (rule histogram_count_at)
  have cond: "(hourly_activity a = [] \<or> sum_list (map snd (hourly_activity a)) = 0) = (?hs = [])"
    using empty zero by blast
  have entry: "hourly_data_of (hourly_activity a) ! h =
      \<lparr>hour = h,
       activity_count = (if ?hs = [] then count_at sample_hours h else count_list ?hs h),
       label = fmt_02d h @ '':00''\<rparr>" if "h < 24" for h
    unfolding hourly_data_of_nth [OF that] cond by (simp add: count)
  show ?thesis
    by (simp add: 1(3) hourly_data_of_hours entry)
qed

lemma dashboard_sample_log:
  "map_sum id hourly_counts
     (get_dashboard_data sample_loads sample_fromisoformat [] [] (sample_fs sample_log) sample_date)
   = Inr [0, 0, 0, 0, 0, 0, 0, 0, 0, 1, 1, 0, 0, 0, 0, 0, 0, 0, 0, 0, 0, 0, 0, 0]"
  by code_simp

lemma dashboard_sample_log_returns:
  "\<exists>doc. get_dashboard_data sample_loads sample_fromisoformat [] [] (sample_fs sample_log)
            sample_date = Inr doc"
  using dashboard_sample_log by (auto simp: map_sum_def split: sum.splits)

lemma sample_log_hours:
  "event_hours sample_fromisoformat
     (fst (load_daily_activities sample_loads (sample_fs sample_log) sample_date)) = [9, 10]"
  by code_simp

theorem dashboard_hourly_activity_witness:
  "map_sum id hourly_counts
     (get_dashboard_data sample_loads sample_fromisoformat [] [] (sample_fs sample_log) sample_date)
   = Inr (map (count_list [9, 10]) [0..<24])"
proof -
  obtain doc where doc: "get_dashboard_data sample_loads sample_fromisoformat [] []
      (sample_fs sample_log) sample_date = Inr doc"
    using dashboard_sample_log_returns by blast
  have hours: "map hour (db_hourly_activity doc) = [0..<24]"
    and counts: "\<forall>h < 24. activity_count (db_hourly_activity doc ! h) = count_list [9, 10] h"
    using dashboard_hourly_activity [OF doc] by (simp_all add: sample_log_hours)
  have len: "length (db_hourly_activity doc) = 24"
    using hours by (metis length_map length_upt diff_zero)
  have "map activity_count (db_hourly_activity doc) = map (count_list [9, 10]) [0..<24]"
    using counts len by (intro nth_equalityI) simp_all
  then show ?thesis
    by (simp add: doc hourly_counts_def)
qed

text \<open>
  C5 as stated fails: on a day without a log the document shows the sample histogram, for
  instance 3 activities at 9 o'clock.
\<close>

theorem dashboard_sample_data_on_empty_day:
  "map_sum id hourly_counts
     (get_dashboard_data sample_loads sample_fromisoformat [] [] no_log sample_date)
   = Inr [0, 0, 0, 0, 0, 0, 0, 0, 0, 3, 5, 4, 0, 0, 2, 4, 3, 0, 0, 0, 0, 0, 0, 0]"
  by code_simp

section \<open>The preferred break type\<close>

lemma count_break_type_shape:
  assumes "count_break_type v (two_break_types e m) = Inr bt"
  shows "\<exists>e' m'. bt = two_break_types e' m'"
  using assms
  by (cases v) (auto simp: count_break_type_def two_break_types_def split: if_splits)

lemma count_event_shape:
  assumes "count_event ty data c = Inr c'" and "break_types_acc c = two_break_types e m"
  shows "\<exists>e' m'. break_types_acc c' = two_break_types e' m'"
proof (cases "ty = JString ''break_shown''")
  case True
  then obtain v bt where "count_break_type v (two_break_types e m) = Inr bt"
    "break_types_acc c' = bt"
    using assms by (auto simp: count_event_def split: sum.splits)
  then show ?thesis using count_break_type_shape by blast
next
  case False
  then have "break_types_acc c' = break_types_acc c"
    using assms(1) by (auto simp: count_event_def split: if_splits sum.splits)
  then show ?thesis using assms(2) by auto
qed

lemma process_activity_shape:
  assumes "process_activity fromiso c x = Inr c'" and "break_types_acc c = two_break_types e m"
  shows "\<exists>e' m'. break_types_acc c' = two_break_types e' m'"
proof -
  obtain d where x: "x = JObject d"
    using assms(1) by (cases x) (simp_all add: process_activity_def)
  show ?thesis
    using assms count_event_shape [where c = "count_hour fromiso (dict_get d ''timestamp'' (JString '''')) c"]
    by (simp add: x process_activity_def Let_def)
qed

lemma process_all_shape:
  assumes "process_all fromiso c xs = Inr c'" and "break_types_acc c = two_break_types e m"
  shows "\<exists>e' m'. break_types_acc c' = two_break_types e' m'"
  using assms
proof (induction xs arbitrary: c e m)
  case Nil
  then show ?case by auto
next
  case (Cons x xs)
  from Cons.prems(1) obtain c1 where
    step: "process_activity fromiso c x = Inr c1" and rest: "process_all fromiso c1 xs = Inr c'"
    by (auto split: sum.splits)
  obtain e1 m1 where "break_types_acc c1 = two_break_types e1 m1"
    using process_activity_shape [OF step Cons.prems(2)] by blast
  then show ?case by (rule Cons.IH [OF rest])
qed

lemma preferred_of_two:
  "preferred_break_type_of (two_break_types e m) = (if e < m then ''custom_message'' else ''eye_care'')"
  by (simp add: preferred_break_type_of_def two_break_types_def)

lemma analyze_completed_only_day:
  "analyze_daily_patterns sample_fromisoformat completed_only_day = Inr completed_only_analysis"
  by code_simp

text \<open>
  C9 (as amended). \<open>preferred_break_type\<close>, in the AI document and in the dashboard
  document, is the first key with the maximum count in the analysis's \<open>break_types\<close> map.
  For a non-empty event sequence the map has the keys \<open>eye_care\<close> and \<open>custom_message\<close> in
  this order, so that the value is \<open>custom_message\<close> when its count is strictly greater and
  \<open>eye_care\<close> otherwise: \<open>eye_care\<close> wins every tie, the tie of two zero counts included.
  The sentinel \<open>none\<close> stands for the empty map only, which is the map of the empty event
  sequence.
\<close>

theorem preferred_break_type_rule:
  assumes "analyze_daily_patterns fromiso activities = Inr a"
  shows "(activities = [] \<longrightarrow>
            break_types a = [] \<and> preferred_break_type_of (break_types a) = ''none'')
       \<and> (activities \<noteq> [] \<longrightarrow>
            (\<exists>e m. break_types a = two_break_types e m
               \<and> preferred_break_type_of (break_types a)
                   = (if e < m then ''custom_message'' else ''eye_care'')))
       \<and> (\<forall>summary doc. analysis summary = a \<and> project_ai_data summary = Inr doc \<longrightarrow>
            ai_preferred doc = preferred_break_type_of (break_types a))
       \<and> (\<forall>loads now ai_summary fs date_str doc.
            fst (load_daily_activities loads fs date_str) = activities
            \<and> get_dashboard_data loads fromiso now ai_summary fs date_str = Inr doc \<longrightarrow>
            db_preferred doc = preferred_break_type_of (break_types a))"
proof -
  have empty: "break_types a = [] \<and> preferred_break_type_of (break_types a) = ''none''"
    if "activities = []"
  proof -
    have "a = empty_analysis"
      using assms that by (simp add: analyze_daily_patterns_def)
    then show ?thesis
      by (simp add: empty_analysis_def preferred_break_type_of_def)
  qed
  have counted: "\<exists>e m. break_types a = two_break_types e m
      \<and> preferred_break_type_of (break_types a) = (if e < m then ''custom_message'' else ''eye_care'')"
    if nonempty: "activities \<noteq> []"
    using assms
  proof (cases rule: analyze_cases)
    case empty
    then show ?thesis using nonempty by simp
  next
    case (counted w c)
    have "break_types_acc init_counters = two_break_types 0 0"
      by (simp add: two_break_types_def)
    then obtain e m where "break_types_acc c = two_break_types e m"
      using process_all_shape [OF counted(3)] by blast
    then have "break_types a = two_break_types e m"
      by (simp add: counted(4) build_analysis_def)
    then show ?thesis by (auto simp: preferred_of_two)
  qed
  have ai: "ai_preferred doc = preferred_break_type_of (break_types a)"
    if "analysis summary = a \<and> project_ai_data summary = Inr doc" for summary doc
    using that
    by (auto simp: project_ai_data_def ai_preferred_def Let_def split: option.splits)
  have db: "db_preferred doc = preferred_break_type_of (break_types a)"
    if "fst (load_daily_activities loads fs date_str) = activities
        \<and> get_dashboard_data loads fromiso now ai_summary fs date_str = Inr doc"
    for loads now ai_summary fs date_str doc
    using that assms by (auto elim!: get_dashboard_data_cases)
  show ?thesis
    using empty counted ai db by blast
qed

theorem preferred_break_type_rule_witness:
  "analyze_daily_patterns sample_fromisoformat compliant_day = Inr compliant_analysis
   \<and> compliant_day \<noteq> []
   \<and> break_types compliant_analysis = two_break_types 1 0
   \<and> preferred_break_type_of (break_types compliant_analysis) = ''eye_care''"
  using preferred_break_type_rule [OF analyze_compliant_day] analyze_compliant_day
  by (simp add: compliant_analysis_def compliant_day_def two_break_types_def
      preferred_break_type_of_def)

text \<open>
  C9 as stated fails: on a day with one \<^verbatim>\<open>break_completed\<close> event and no break shown, all
  counts of the map are zero and both documents name \<open>eye_care\<close>, not \<open>none\<close>.
\<close>

theorem preferred_break_type_all_zero:
  "analyze_daily_patterns sample_fromisoformat completed_only_day = Inr completed_only_analysis
   \<and> break_types completed_only_analysis = [(''eye_care'', 0), (''custom_message'', 0)]
   \<and> map_sum id ai_preferred
        (prepare_ai_summary_data sample_loads sample_fromisoformat [] (sample_fs [line_completed])
           sample_date) = Inr ''eye_care''
   \<and> map_sum id db_preferred
        (get_dashboard_data sample_loads sample_fromisoformat [] [] (sample_fs [line_completed])
           sample_date) = Inr ''eye_care''"
  by code_simp

section \<open>The fields of the summary\<close>

text \<open>
  C10. Whenever \<open>generate_daily_summary\<close> returns a document, its \<open>raw_activities\<close> field is
  the complete list of the records decoded from the log of that day, in the order of the
  log; \<open>total_activities\<close> is its length, \<open>date\<close> and \<open>generated_at\<close> are the day and the
  time of the call, \<open>analysis\<close> is the analyzer's result on these records, and
  \<open>active_duration_hours\<close> the rounded duration. The document of
  \<open>prepare_ai_summary_data\<close> is the projection of this summary; its type has no field for
  events, and it is the same for every summary with the same date and analysis, whatever
  the raw events are.
\<close>

theorem summary_fields:
  assumes "generate_daily_summary loads fromiso now fs date_str = Inr s"
  shows "raw_activities s = decoded_records loads (log_lines fs date_str)
       \<and> total_activities s = length (raw_activities s)
       \<and> date s = date_str
       \<and> generated_at s = now
       \<and> analyze_daily_patterns fromiso (raw_activities s) = Inr (analysis s)
       \<and> (\<exists>d. active_duration fromiso (raw_activities s) = Inr d
              \<and> active_duration_hours s = py_round1 d)
       \<and> prepare_ai_summary_data loads fromiso now fs date_str = project_ai_data s
       \<and> (\<forall>s'. date s' = date s \<and> analysis s' = analysis s \<longrightarrow>
              project_ai_data s' = project_ai_data s)"
  using assms
proof (cases rule: generate_daily_summary_cases)
  case (1 a d)
  let ?acts = "fst (load_daily_activities loads fs date_str)"
  have raw: "raw_activities s = ?acts"
    and total: "total_activities s = length ?acts"
    and day: "date s = date_str"
    and at: "generated_at s = now"
    and an: "analysis s = a"
    and dur: "active_duration_hours s = py_round1 d"
    by (simp_all add: 1(3))
  have records: "raw_activities s = decoded_records loads (log_lines fs date_str)"
    unfolding raw by (rule load_daily_activities_records)
  have analysed: "analyze_daily_patterns fromiso (raw_activities s) = Inr (analysis s)"
    unfolding raw an by (rule 1(1))
  have duration: "\<exists>d. active_duration fromiso (raw_activities s) = Inr d
      \<and> active_duration_hours s = py_round1 d"
    unfolding raw dur using 1(2) by blast
  have projection: "prepare_ai_summary_data loads fromiso now fs date_str = project_ai_data s"
    unfolding prepare_ai_summary_data_def assms by simp
  have independent: "\<forall>s'. date s' = date s \<and> analysis s' = analysis s \<longrightarrow>
      project_ai_data s' = project_ai_data s"
    by (auto simp: project_ai_data_def Let_def split: option.splits)
  have counted: "total_activities s = length (raw_activities s)"
    unfolding raw by (rule total)
  show ?thesis
    using records counted day at analysed duration projection independent
    by (intro conjI)
qed

theorem summary_fields_witness:
  "generate_daily_summary sample_loads sample_fromisoformat ''2024-01-02T08:00:00''
     (sample_fs sample_log) sample_date = Inr sample_summary
   \<and> raw_activities sample_summary = [shown_at_9, completed_at_10]
   \<and> raw_activities sample_summary
       = decoded_records sample_loads (log_lines (sample_fs sample_log) sample_date)
   \<and> total_activities sample_summary = 2
   \<and> analyze_daily_patterns sample_fromisoformat (raw_activities sample_summary)
       = Inr (analysis sample_summary)"
proof -
  note fields = summary_fields [OF sample_summary_generated]
  have decoded: "raw_activities sample_summary
      = decoded_records sample_loads (log_lines (sample_fs sample_log) sample_date)"
    using fields by (rule conjunct1)
  have analysed: "analyze_daily_patterns sample_fromisoformat (raw_activities sample_summary)
      = Inr (analysis sample_summary)"
    using fields by (elim conjE)
  have raw: "raw_activities sample_summary = [shown_at_9, completed_at_10]"
    by (simp add: sample_summary_def)
  have total: "total_activities sample_summary = 2"
    by (simp add: sample_summary_def)
  show ?thesis
    using sample_summary_generated raw decoded total analysed by (intro conjI)
qed

section \<open>The most active hours\<close>

lemma insort_key_map:
  "insort_key f (g x) (map g ys) = map g (insort_key (\<lambda>y. f (g y)) x ys)"
  by (induction ys) simp_all

lemma sort_key_map:
  "sort_key f (map g xs) = map g (sort_key (\<lambda>y. f (g y)) xs)"
  by (induction xs) (simp_all add: insort_key_map)

lemma peak_hours_of_histogram:
  "map fst (peak_hours_of (map (\<lambda>h. (h, count_list hs h)) (first_seen hs)))
     = take 3 (ranked_hours hs)"
  by (simp add: peak_hours_of_def ranked_hours_def sort_key_map take_map comp_def)

lemma peak_hours_of_Nil_iff: "(peak_hours_of hist = []) = (hist = [])"
proof -
  have "length (peak_hours_of hist) = min 3 (length hist)"
    by (simp add: peak_hours_of_def)
  then show ?thesis
    by (cases hist) (auto simp del: length_0_conv simp: length_0_conv [symmetric])
qed

lemma render_peak_hours:
  "''Most active hours: '' @ join '', '' (map (\<lambda>(h, _). fmt_02d h @ '':00'') peak)
     = most_active_insight (map fst peak)"
  by (simp add: most_active_insight_def comp_def case_prod_unfold)

lemma other_insights_differ:
  "most_active_insight hs \<noteq>
     ''Low break compliance detected - consider adjusting break duration or frequency''"
  "most_active_insight hs \<noteq> ''Excellent break compliance! You're taking good care of your eyes''"
  "most_active_insight hs \<noteq> ''Used '' @ u"
  "most_active_insight hs \<noteq>
     ''Frequent break rescheduling detected - consider adjusting default intervals''"
  "most_active_insight hs \<noteq>
     ''Multiple pause/resume events - consider if current settings match your workflow''"
  "most_active_insight hs \<noteq>
     ''Active user of voice commands - you're making the most of Restly's features!''"
  by (simp_all add: most_active_insight_def)

lemma generate_insights_peak:
  "hourly_activity_acc c \<noteq> [] \<Longrightarrow>
     generate_insights c \<noteq> []
     \<and> last (generate_insights c)
         = most_active_insight (map fst (peak_hours_of (hourly_activity_acc c)))"
  "hourly_activity_acc c = [] \<Longrightarrow> most_active_insight hs \<notin> set (generate_insights c)"
proof -
  show "generate_insights c \<noteq> []
      \<and> last (generate_insights c)
          = most_active_insight (map fst (peak_hours_of (hourly_activity_acc c)))"
    if "hourly_activity_acc c \<noteq> []"
  proof -
    have "peak_hours_of (hourly_activity_acc c) \<noteq> []"
      using that by (simp add: peak_hours_of_Nil_iff)
    then show ?thesis
      unfolding generate_insights_def Let_def render_peak_hours
      by simp
  qed
  show "most_active_insight hs \<notin> set (generate_insights c)"
    if "hourly_activity_acc c = []"
  proof -
    have "peak_hours_of (hourly_activity_acc c) = []"
      using that by (simp add: peak_hours_of_Nil_iff)
    then show ?thesis
      unfolding generate_insights_def Let_def
      using other_insights_differ [of hs] by auto
  qed
qed

lemma ranked_hours_sorted:
  "sorted_wrt (\<lambda>h h'. count_list hs h' \<le> count_list hs h) (ranked_hours hs)"
proof -
  have "sorted (map (\<lambda>h. - int (count_list hs h)) (ranked_hours hs))"
    unfolding ranked_hours_def by (rule sorted_sort_key)
  then show ?thesis
    by (simp add: sorted_map)
qed

lemma ranked_hours_stable:
  "filter (\<lambda>h. count_list hs h = n) (ranked_hours hs)
     = filter (\<lambda>h. count_list hs h = n) (first_seen hs)"
proof -
  have "filter (\<lambda>h. - int (count_list hs h) = - int n) (ranked_hours hs)
      = filter (\<lambda>h. - int (count_list hs h) = - int n) (first_seen hs)"
    unfolding ranked_hours_def by (rule sort_key_stable)
  then show ?thesis by simp
qed

lemma analysis_insights:
  assumes "analyze_daily_patterns fromiso activities = Inr a" and "activities \<noteq> []"
  obtains c where "insights a = generate_insights c" "hourly_activity a = hourly_activity_acc c"
  using assms
  by (auto simp: build_analysis_def elim!: analyze_cases)

text \<open>
  C8 (as amended). The "most active hours" insight is emitted exactly when at least one
  event has a timestamp that parses, that is when \<open>hourly_activity\<close> is not empty, and it is
  then the last insight. It lists the first three of the hours ranked by descending event
  count; hours with equal counts stay in the order in which they first appeared in the
  event stream (the sort is stable), not in ascending hour order.
\<close>

theorem most_active_hours_rule:
  assumes "analyze_daily_patterns fromiso activities = Inr a"
  shows "(event_hours fromiso activities = [] \<longrightarrow>
            hourly_activity a = [] \<and> (\<forall>hs. most_active_insight hs \<notin> set (insights a)))
       \<and> (event_hours fromiso activities \<noteq> [] \<longrightarrow>
            hourly_activity a \<noteq> [] \<and> insights a \<noteq> []
            \<and> last (insights a)
                = most_active_insight (take 3 (ranked_hours (event_hours fromiso activities))))
       \<and> set (ranked_hours (event_hours fromiso activities)) = set (event_hours fromiso activities)
       \<and> distinct (ranked_hours (event_hours fromiso activities))
       \<and> sorted_wrt (\<lambda>h h'. count_list (event_hours fromiso activities) h'
                               \<le> count_list (event_hours fromiso activities) h)
            (ranked_hours (event_hours fromiso activities))
       \<and> (\<forall>n. filter (\<lambda>h. count_list (event_hours fromiso activities) h = n)
                  (ranked_hours (event_hours fromiso activities))
              = filter (\<lambda>h. count_list (event_hours fromiso activities) h = n)
                  (first_seen (event_hours fromiso activities)))"
proof -
  let ?hs = "event_hours fromiso activities"
  have hist: "hourly_activity a = map (\<lambda>h. (h, count_list ?hs h)) (first_seen ?hs)"
    by (rule analysis_histogram [OF assms])
  have none: "hourly_activity a = [] \<and> (\<forall>hs. most_active_insight hs \<notin> set (insights a))"
    if "?hs = []"
  proof (cases "activities = []")
    case True
    then have "a = empty_analysis"
      using assms by (simp add: analyze_daily_patterns_def)
    then show ?thesis by (simp add: empty_analysis_def)
  next
    case False
    obtain c where c: "insights a = generate_insights c"
      "hourly_activity a = hourly_activity_acc c"
      using analysis_insights [OF assms False] by blast
    have "hourly_activity_acc c = []"
      using that hist c(2) by simp
    then show ?thesis
      using generate_insights_peak(2) c by simp
  qed
  have some: "hourly_activity a \<noteq> [] \<and> insights a \<noteq> []
      \<and> last (insights a) = most_active_insight (take 3 (ranked_hours ?hs))"
    if "?hs \<noteq> []"
  proof -
    have nonempty: "hourly_activity a \<noteq> []"
      using that by (simp add: hist)
    then have "activities \<noteq> []"
      using assms by (auto simp: analyze_daily_patterns_def empty_analysis_def)
    then obtain c where c: "insights a = generate_insights c"
      "hourly_activity a = hourly_activity_acc c"
      using analysis_insights [OF assms] by blast
    have "map fst (peak_hours_of (hourly_activity_acc c)) = take 3 (ranked_hours ?hs)"
      unfolding c(2) [symmetric] hist by (rule peak_hours_of_histogram)
    then show ?thesis
      using generate_insights_peak(1) [of c] nonempty c by simp
  qed
  have members: "set (ranked_hours ?hs) = set ?hs" "distinct (ranked_hours ?hs)"
    by (simp_all add: ranked_hours_def distinct_first_seen)
  show ?thesis
    using none some members ranked_hours_sorted [of ?hs] ranked_hours_stable [of ?hs]
    by (intro conjI impI allI) simp_all
qed

lemma compliant_day_hours: "event_hours sample_fromisoformat compliant_day = [9, 10]"
  by code_simp

lemma ranked_9_10: "take 3 (ranked_hours [9, 10]) = [9, 10]"
  by code_simp

theorem most_active_hours_rule_witness:
  "analyze_daily_patterns sample_fromisoformat compliant_day = Inr compliant_analysis
   \<and> event_hours sample_fromisoformat compliant_day = [9, 10]
   \<and> last (insights compliant_analysis) = most_active_insight [9, 10]
   \<and> last (insights compliant_analysis) = ''Most active hours: 09:00, 10:00''"
proof -
  have "last (insights compliant_analysis)
      = most_active_insight (take 3 (ranked_hours (event_hours sample_fromisoformat compliant_day)))"
    using most_active_hours_rule [OF analyze_compliant_day] by (simp add: compliant_day_hours)
  then have "last (insights compliant_analysis) = most_active_insight [9, 10]"
    by (simp only: compliant_day_hours ranked_9_10)
  moreover have "last (insights compliant_analysis) = ''Most active hours: 09:00, 10:00''"
    by (simp add: compliant_analysis_def)
  ultimately show ?thesis
    using analyze_compliant_day compliant_day_hours by (intro conjI)
qed

text \<open>
  C8 as stated fails: two days with the same hourly histogram (one event at 9, one at 10)
  get different insights, and when the event at 10 is logged first the hours 10 and 9,
  tied at one event each, are listed in descending hour order.
\<close>

theorem most_active_hours_first_appearance:
  "map_sum id hourly_activity
     (analyze_daily_patterns sample_fromisoformat [command_at_10, command_at_9])
     = Inr [(10, 1), (9, 1)]
   \<and> map_sum id insights
       (analyze_daily_patterns sample_fromisoformat [command_at_10, command_at_9])
     = Inr [''Low break compliance detected - consider adjusting break duration or frequency'',
            ''Most active hours: 10:00, 09:00'']
   \<and> map_sum id hourly_activity
       (analyze_daily_patterns sample_fromisoformat [command_at_9, command_at_10])
     = Inr [(9, 1), (10, 1)]
   \<and> map_sum id insights
       (analyze_daily_patterns sample_fromisoformat [command_at_9, command_at_10])
     = Inr [''Low break compliance detected - consider adjusting break duration or frequency'',
            ''Most active hours: 09:00, 10:00'']"
  by code_simp

section \<open>The active duration\<close>

















section \<open>Lines that are no records\<close>

text \<open>
  C4. The reader skips, with a warning, the lines that \<^verbatim>\<open>json.loads\<close> rejects, and only
  those: a line that is JSON but no record, such as \<^verbatim>\<open>42\<close>, is decoded, gets no warning
  and is returned with the records, although the reader and the analyzer are declared on
  lists of dicts. On the log with a record, a line that is no JSON, the line \<^verbatim>\<open>42\<close> and a
  second record, the reader returns the two records and the number 42 between them, with
  the one warning for the line that is no JSON; \<open>total_activities\<close> would be 3; the analyzer
  raises \<^verbatim>\<open>AttributeError\<close> at the number, and so do the summary and the dashboard document
  of the day. Without the line \<^verbatim>\<open>42\<close> the same log gives the summary of the two records.
\<close>

theorem non_record_line_reaches_analyzer:
  "rejected sample_loads line_garbage
   \<and> \<not> rejected sample_loads line_number
   \<and> decodes sample_loads line_number
   \<and> sample_loads (strip (line_number @ [CHR 0x0A])) = Inr (JInt 42)
   \<and> \<not> well_formed_event (JInt 42)
   \<and> load_daily_activities sample_loads
         (sample_fs [line_shown, line_garbage, line_number, line_completed]) sample_date
       = ([shown_at_9, JInt 42, completed_at_10],
          [''Warning: Skipping malformed JSON line: Expecting value: line 1 column 1 (char 0)''])
   \<and> length [shown_at_9, JInt 42, completed_at_10] = 3
   \<and> analyze_daily_patterns sample_fromisoformat [shown_at_9, JInt 42, completed_at_10]
       = Inl AttributeError
   \<and> generate_daily_summary sample_loads sample_fromisoformat ''2024-01-02T08:00:00''
         (sample_fs [line_shown, line_garbage, line_number, line_completed]) sample_date
       = Inl AttributeError
   \<and> map_sum id hourly_counts
         (get_dashboard_data sample_loads sample_fromisoformat [] []
            (sample_fs [line_shown, line_garbage, line_number, line_completed]) sample_date)
       = Inl AttributeError
   \<and> generate_daily_summary sample_loads sample_fromisoformat ''2024-01-02T08:00:00''
         (sample_fs [line_shown, line_garbage, line_completed]) sample_date
       = Inr sample_summary"
  by code_simp

end
